theory Spec2Isabelle
  imports Complex_Main "HOL-Library.Word" "HOL-Library.Multiset" "HOL-Library.Product_Lexorder"
begin

section \<open>Data model\<close>


type_synonym jsstring = "16 word list"

datatype role = System | User | Assistant

record message =
  msg_id :: nat
  msg_session_id :: jsstring
  msg_role :: role
  msg_content :: jsstring
  msg_tokens :: int
  msg_timestamp :: int
  msg_is_summarized :: nat
  msg_embedding :: "real list"

record memory =
  mem_session_id :: jsstring
  mem_summary :: jsstring
  mem_created_at :: int
  mem_embedding :: "real list"

record session =
  sess_id :: jsstring
  sess_createdAt :: int
  sess_updatedAt :: int

text \<open>The \<open>{role, content}\<close> objects of the completion protocol and of the history queries.\<close>

record chat_message =
  role :: role
  content :: jsstring


text \<open>
  The outcome of one POST to the completion endpoint, as \<open>callAPI\<close> tells the cases apart:
  the fetch rejects, the status is not 2xx (status and body text), the body is not JSON,
  the JSON has no \<open>choices[0].message\<close> (its rendering), or there is a reply.
\<close>

datatype api_outcome =
    NetworkFailure
  | HttpStatus nat jsstring
  | BadJson
  | NoChoice jsstring
  | Reply jsstring

datatype error =
    FetchError
  | ApiCallFailed nat jsstring
  | JsonError
  | ApiFormatError jsstring

datatype log_entry =
    Compressed nat
  | SummaryFailed error
  | RequestFailed error

text \<open>
  The module state of \<open>vector-storage.js\<close> (the three tables and the id counter), the
  console, and the request bodies sent to the completion endpoint, oldest first. The
  session table is a JavaScript \<open>Map\<close>, kept here as its entries in insertion order.
  \<open>saveData\<close> writes the tables to disk after each change; the files mirror the tables
  and are left out. The in-memory store has the same tables and the same operations
  without embeddings.
\<close>

record state =
  messages :: "message list"
  memories :: "memory list"
  sessions :: "(jsstring \<times> session) list"
  messageIdCounter :: nat
  console :: "log_entry list"
  completions :: "chat_message list list"

text \<open>
  What the outside world answers during one \<open>/api/chat\<close> request: the readings of
  \<open>Date.now()\<close>, the embeddings endpoint (\<open>None\<close>: a failure, which selects the local
  fallback) and the completion endpoint.
\<close>

record turn_env =
  now_session :: int
  now_user :: int
  emb_user :: "real list option"
  api_summary :: api_outcome
  now_summary :: int
  emb_summary :: "real list option"
  api_chat :: api_outcome
  now_assistant :: int
  emb_assistant :: "real list option"

record debug_info =
  totalMessages :: nat
  model :: jsstring
  longTermMemory :: nat
  shortTermRounds :: int

datatype response = Json200 jsstring debug_info | Json500 error

section \<open>Configuration and fixed texts\<close>

definition MAX_SHORT_TERM_ROUNDS :: nat where
  "MAX_SHORT_TERM_ROUNDS = 6"

definition SUMMARY_TRIGGER_ROUNDS :: nat where
  "SUMMARY_TRIGGER_ROUNDS = 10"

definition MODEL :: jsstring where
  "MODEL =
   [0x6A21, 0x578B, 0x540D, 0x79F0]"

definition LABEL_USER :: jsstring where
  "LABEL_USER =
   [0x7528, 0x6237]"

definition LABEL_ASSISTANT :: jsstring where
  "LABEL_ASSISTANT =
   [0x52A9, 0x624B]"

definition SUMMARY_SYSTEM_PROMPT :: jsstring where
  "SUMMARY_SYSTEM_PROMPT =
   [0x4F60, 0x662F, 0x4E00, 0x4E2A, 0x5BF9, 0x8BDD, 0x6458, 0x8981, 0x52A9, 0x624B, 0x3002,
    0x8BF7, 0x5C06, 0x5BF9, 0x8BDD, 0x5185, 0x5BB9, 0x538B, 0x7F29, 0x4E3A, 0x7B80, 0x6D01,
    0x7684, 0x6458, 0x8981, 0xFF0C, 0x4FDD, 0x7559, 0x5173, 0x952E, 0x4FE1, 0x606F, 0x3002]"

definition SUMMARY_REQUEST_HEAD :: jsstring where
  "SUMMARY_REQUEST_HEAD =
   [0x8BF7, 0x603B, 0x7ED3, 0x4EE5, 0x4E0B, 0x5BF9, 0x8BDD, 0xFF0C, 0x63D0, 0x53D6, 0xFF1A,
    0xA, 0x31, 0x2E, 0x20, 0x7528, 0x6237, 0x7684, 0x57FA, 0x672C, 0x4FE1, 0x606F, 0xFF08,
    0x59D3, 0x540D, 0x3001, 0x504F, 0x597D, 0x3001, 0x4E2A, 0x4EBA, 0x60C5, 0x51B5, 0x7B49,
    0xFF09, 0xA, 0x32, 0x2E, 0x20, 0x8BA8, 0x8BBA, 0x7684, 0x4E3B, 0x8981, 0x8BDD, 0x9898,
    0xA, 0x33, 0x2E, 0x20, 0x91CD, 0x8981, 0x7684, 0x51B3, 0x5B9A, 0x6216, 0x7ED3, 0x8BBA,
    0xA, 0xA, 0x5BF9, 0x8BDD, 0x5185, 0x5BB9, 0xFF1A, 0xA]"

definition SUMMARY_REQUEST_TAIL :: jsstring where
  "SUMMARY_REQUEST_TAIL =
   [0xA, 0xA, 0x8BF7, 0x7528, 0x7B80, 0x6D01, 0x7684, 0x4E2D, 0x6587, 0x603B, 0x7ED3,
    0xFF1A]"

definition PERSONA_PROMPT :: jsstring where
  "PERSONA_PROMPT =
   [0x4F60, 0x662F, 0x4E00, 0x4E2A, 0x53CB, 0x597D, 0x3001, 0x6709, 0x8BB0, 0x5FC6, 0x7684,
    0x52A9, 0x624B, 0x3002, 0x4F60, 0x80FD, 0x8BB0, 0x4F4F, 0x4E4B, 0x524D, 0x7684, 0x5BF9,
    0x8BDD, 0x5185, 0x5BB9, 0xFF0C, 0x5E76, 0x6839, 0x636E, 0x5386, 0x53F2, 0x4FE1, 0x606F,
    0x63D0, 0x4F9B, 0x8FDE, 0x8D2F, 0x7684, 0x56DE, 0x590D, 0x3002]"

definition SUMMARY_HEADING :: jsstring where
  "SUMMARY_HEADING =
   [0x4EE5, 0x4E0B, 0x662F, 0x4E4B, 0x524D, 0x5BF9, 0x8BDD, 0x7684, 0x6458, 0x8981, 0x4FE1,
    0x606F, 0xFF1A, 0xA]"

definition DEFAULT_SESSION :: jsstring where
  "DEFAULT_SESSION =
   [0x64, 0x65, 0x66, 0x61, 0x75, 0x6C, 0x74]"

definition COLON_SPACE :: jsstring where
  "COLON_SPACE = [0x3A, 0x20]"

definition NEWLINE :: jsstring where
  "NEWLINE = [0xA]"

definition BLANK_LINE :: jsstring where
  "BLANK_LINE = [0xA, 0xA]"

section \<open>Embeddings (\<open>vector-storage.js\<close>)\<close>

text \<open>\<open>magnitude || 1\<close>: the right operand replaces a falsy left one, here the number 0.\<close>

definition or_one :: "real \<Rightarrow> real" where
  "or_one magnitude = (if magnitude = 0 then 1 else magnitude)"

text \<open>The loop of \<open>simpleEmbedding\<close>: one increment of bucket \<open>charCode % 128\<close> per index.\<close>

definition bump_bucket :: "16 word \<Rightarrow> real list \<Rightarrow> real list" where
  "bump_bucket charCode vector =
     vector[unat charCode mod 128 := vector ! (unat charCode mod 128) + 1]"

definition histogram :: "jsstring \<Rightarrow> real list" where
  "histogram text = fold bump_bucket text (replicate 128 0)"

definition simpleEmbedding :: "jsstring \<Rightarrow> real list" where
  "simpleEmbedding text =
     (let vector = histogram text;
          magnitude = sqrt (foldl (\<lambda>sum val. sum + val * val) 0 vector)
      in map (\<lambda>v. v / or_one magnitude) vector)"

text \<open>
  \<open>getEmbedding\<close>: the endpoint's vector when the request succeeds, the local fallback on
  a non-2xx status and on any exception.
\<close>

definition getEmbedding :: "real list option \<Rightarrow> jsstring \<Rightarrow> real list" where
  "getEmbedding answer text =
     (case answer of Some embedding \<Rightarrow> embedding | None \<Rightarrow> simpleEmbedding text)"

section \<open>Double arithmetic\<close>










section \<open>Cosine similarity (\<open>vector-storage.js\<close>)\<close>




section \<open>The storage interface (\<open>db.prepare\<close> in \<open>vector-storage.js\<close>)\<close>

definition init_state :: state where
  "init_state =
     \<lparr>messages = [], memories = [], sessions = [], messageIdCounter = 1,
      console = [], completions = []\<rparr>"

text \<open>\<open>INSERT OR IGNORE INTO sessions\<close>\<close>

definition insertSession :: "jsstring \<Rightarrow> int \<Rightarrow> int \<Rightarrow> state \<Rightarrow> state" where
  "insertSession sessionId createdAt updatedAt st =
     (if sessionId \<in> fst ` set (sessions st) then st
      else st\<lparr>sessions := sessions st @
        [(sessionId, \<lparr>sess_id = sessionId, sess_createdAt = createdAt,
                        sess_updatedAt = updatedAt\<rparr>)]\<rparr>)"

text \<open>\<open>INSERT INTO messages\<close>\<close>

definition insertMessage ::
  "real list option \<Rightarrow> jsstring \<Rightarrow> role \<Rightarrow> jsstring \<Rightarrow> int \<Rightarrow> int \<Rightarrow> state \<Rightarrow> state" where
  "insertMessage answer sessionId r c tok ts st =
     st\<lparr>messages := messages st @
          [\<lparr>msg_id = messageIdCounter st, msg_session_id = sessionId, msg_role = r,
            msg_content = c, msg_tokens = tok, msg_timestamp = ts,
            msg_is_summarized = 0, msg_embedding = getEmbedding answer c\<rparr>],
        messageIdCounter := messageIdCounter st + 1\<rparr>"

text \<open>\<open>UPDATE sessions SET updated_at\<close>\<close>

definition touchSession :: "int \<Rightarrow> jsstring \<Rightarrow> state \<Rightarrow> state" where
  "touchSession updatedAt sessionId st =
     st\<lparr>sessions := map (\<lambda>(k, s). if k = sessionId then (k, s\<lparr>sess_updatedAt := updatedAt\<rparr>)
                                  else (k, s)) (sessions st)\<rparr>"

definition unsummarized_of :: "jsstring \<Rightarrow> message \<Rightarrow> bool" where
  "unsummarized_of sessionId m \<longleftrightarrow> msg_session_id m = sessionId \<and> msg_is_summarized m = 0"

text \<open>\<open>SELECT COUNT(*) as count FROM messages\<close>\<close>

definition countUnsummarized :: "state \<Rightarrow> jsstring \<Rightarrow> nat" where
  "countUnsummarized st sessionId = length (filter (unsummarized_of sessionId) (messages st))"

text \<open>
  \<open>SELECT role, content FROM messages ... ORDER BY timestamp DESC LIMIT ?\<close>: filter, sort
  with the comparator \<open>b.timestamp - a.timestamp\<close>, \<open>slice(0, limit)\<close>, then the projection.
  \<open>Array.prototype.sort\<close> is stable, and on integer timestamps the comparator is a
  consistent order, so the result is the stable sort on the negated timestamp. The limit
  is a natural number (the caller passes \<open>MAX_SHORT_TERM_ROUNDS * 2\<close>).
\<close>

definition recentRows :: "state \<Rightarrow> jsstring \<Rightarrow> nat \<Rightarrow> message list" where
  "recentRows st sessionId limit =
     take limit (sort_key (\<lambda>m. - msg_timestamp m)
       (filter (unsummarized_of sessionId) (messages st)))"

definition row_of :: "message \<Rightarrow> chat_message" where
  "row_of m = \<lparr>role = msg_role m, content = msg_content m\<rparr>"

definition selectRecent :: "state \<Rightarrow> jsstring \<Rightarrow> nat \<Rightarrow> chat_message list" where
  "selectRecent st sessionId limit = map row_of (recentRows st sessionId limit)"

text \<open>\<open>SELECT summary FROM long_term_memory ... ORDER BY created_at ASC\<close>\<close>

definition selectSummaries :: "state \<Rightarrow> jsstring \<Rightarrow> jsstring list" where
  "selectSummaries st sessionId =
     map mem_summary (sort_key mem_created_at
       (filter (\<lambda>m. mem_session_id m = sessionId) (memories st)))"

text \<open>\<open>SELECT id, role, content FROM messages ... is_summarized = 0 ORDER BY timestamp ASC\<close>\<close>

definition selectUnsummarized :: "state \<Rightarrow> jsstring \<Rightarrow> message list" where
  "selectUnsummarized st sessionId =
     sort_key msg_timestamp (filter (unsummarized_of sessionId) (messages st))"

text \<open>\<open>INSERT INTO long_term_memory\<close>\<close>

definition insertMemory :: "real list option \<Rightarrow> jsstring \<Rightarrow> jsstring \<Rightarrow> int \<Rightarrow> state \<Rightarrow> state" where
  "insertMemory answer sessionId summary createdAt st =
     st\<lparr>memories := memories st @
       [\<lparr>mem_session_id = sessionId, mem_summary = summary, mem_created_at = createdAt,
         mem_embedding = getEmbedding answer summary\<rparr>]\<rparr>"

text \<open>
  \<open>UPDATE messages SET is_summarized = 1 WHERE id = ?\<close>: \<open>messages.find\<close> returns the
  first message with that id, whose flag is set; without one nothing changes.
\<close>

fun mark_first :: "nat \<Rightarrow> message list \<Rightarrow> message list" where
  "mark_first i [] = []"
| "mark_first i (m # ms) =
     (if msg_id m = i then m\<lparr>msg_is_summarized := 1\<rparr> # ms else m # mark_first i ms)"

definition updateSummarized :: "nat \<Rightarrow> state \<Rightarrow> state" where
  "updateSummarized i st = st\<lparr>messages := mark_first i (messages st)\<rparr>"

text \<open>The \<open>db.transaction\<close> wrapper calls its function: one update per id, in order.\<close>

definition markSummarized :: "nat list \<Rightarrow> state \<Rightarrow> state" where
  "markSummarized ids st = fold updateSummarized ids st"

section \<open>The core functions of the server\<close>

text \<open>
  \<open>estimateTokens\<close>: the regular expression has no \<open>u\<close> flag, so it matches code units
  in the range 4E00 to 9FA5.
\<close>

definition estimateTokens :: "jsstring \<Rightarrow> int" where
  "estimateTokens text =
     (let chineseChars = length (filter (\<lambda>c. 0x4E00 \<le> c \<and> c \<le> 0x9FA5) text);
          otherChars = length text - chineseChars
      in \<lceil>real chineseChars / 1.5 + real otherChars / 4\<rceil>)"

definition ensureSession :: "int \<Rightarrow> jsstring \<Rightarrow> state \<Rightarrow> state" where
  "ensureSession now sessionId st = insertSession sessionId now now st"

definition saveMessage ::
  "int \<Rightarrow> real list option \<Rightarrow> jsstring \<Rightarrow> role \<Rightarrow> jsstring \<Rightarrow> state \<Rightarrow> state" where
  "saveMessage now answer sessionId r c st =
     touchSession now sessionId
       (insertMessage answer sessionId r c (estimateTokens c) now st)"

definition getMessageCount :: "state \<Rightarrow> jsstring \<Rightarrow> nat" where
  "getMessageCount st sessionId = countUnsummarized st sessionId"

definition getRecentHistory :: "state \<Rightarrow> jsstring \<Rightarrow> nat \<Rightarrow> chat_message list" where
  "getRecentHistory st sessionId limit = rev (selectRecent st sessionId limit)"

definition getLongTermMemory :: "state \<Rightarrow> jsstring \<Rightarrow> jsstring list" where
  "getLongTermMemory st sessionId = selectSummaries st sessionId"

text \<open>
  \<open>callAPI\<close> posts the messages and returns the reply's content or throws. The request
  body is recorded; the endpoint's outcome is an input.
\<close>

definition api_result :: "api_outcome \<Rightarrow> error + jsstring" where
  "api_result outcome =
     (case outcome of
        NetworkFailure \<Rightarrow> Inl FetchError
      | HttpStatus status errorText \<Rightarrow> Inl (ApiCallFailed status errorText)
      | BadJson \<Rightarrow> Inl JsonError
      | NoChoice dat \<Rightarrow> Inl (ApiFormatError dat)
      | Reply c \<Rightarrow> Inr c)"

definition callAPI :: "api_outcome \<Rightarrow> chat_message list \<Rightarrow> state \<Rightarrow> (error + jsstring) \<times> state" where
  "callAPI outcome msgs st = (api_result outcome, st\<lparr>completions := completions st @ [msgs]\<rparr>)"

text \<open>\<open>Array.prototype.join\<close>\<close>

fun join :: "jsstring \<Rightarrow> jsstring list \<Rightarrow> jsstring" where
  "join sep [] = []"
| "join sep [x] = x"
| "join sep (x # y # ys) = x @ sep @ join sep (y # ys)"

definition transcript_line :: "message \<Rightarrow> jsstring" where
  "transcript_line msg =
     (if msg_role msg = User then LABEL_USER else LABEL_ASSISTANT) @ COLON_SPACE @ msg_content msg"

definition summaryMessages :: "message list \<Rightarrow> chat_message list" where
  "summaryMessages unsummarized =
     [\<lparr>role = System, content = SUMMARY_SYSTEM_PROMPT\<rparr>,
      \<lparr>role = User, content = SUMMARY_REQUEST_HEAD @
          join NEWLINE (map transcript_line unsummarized) @ SUMMARY_REQUEST_TAIL\<rparr>]"

definition generateSummary :: "turn_env \<Rightarrow> jsstring \<Rightarrow> state \<Rightarrow> state" where
  "generateSummary env sessionId st =
     (let unsummarized = selectUnsummarized st sessionId in
      if length unsummarized < 5 then st
      else
        (case callAPI (api_summary env) (summaryMessages unsummarized) st of
           (Inl err, st1) \<Rightarrow> st1\<lparr>console := console st1 @ [SummaryFailed err]\<rparr>
         | (Inr summary, st1) \<Rightarrow>
             (let st2 = insertMemory (emb_summary env) sessionId summary (now_summary env) st1;
                  st3 = markSummarized (map msg_id unsummarized) st2
              in st3\<lparr>console := console st3 @ [Compressed (length unsummarized)]\<rparr>)))"

definition buildContext :: "state \<Rightarrow> jsstring \<Rightarrow> chat_message list" where
  "buildContext st sessionId =
     (let longTerm = getLongTermMemory st sessionId;
          shortTermHistory = getRecentHistory st sessionId (MAX_SHORT_TERM_ROUNDS * 2)
      in [\<lparr>role = System, content = PERSONA_PROMPT\<rparr>] @
         (if length longTerm > 0
          then [\<lparr>role = System, content = SUMMARY_HEADING @ join BLANK_LINE longTerm\<rparr>]
          else []) @
         map (\<lambda>msg. \<lparr>role = role msg, content = content msg\<rparr>) shortTermHistory)"

section \<open>The routes\<close>

text \<open>The state of \<open>/api/chat\<close> after the user message is saved and the trigger is checked.\<close>

definition chat_triggered :: "turn_env \<Rightarrow> jsstring \<Rightarrow> jsstring \<Rightarrow> state \<Rightarrow> nat \<times> state" where
  "chat_triggered env message sessionId st =
     (let st1 = ensureSession (now_session env) sessionId st;
          st2 = saveMessage (now_user env) (emb_user env) sessionId User message st1;
          messageCount = getMessageCount st2 sessionId
      in (messageCount,
          if messageCount > 0 \<and> messageCount mod SUMMARY_TRIGGER_ROUNDS = 0
          then generateSummary env sessionId st2 else st2))"

definition chat :: "turn_env \<Rightarrow> jsstring \<Rightarrow> jsstring \<Rightarrow> state \<Rightarrow> response \<times> state" where
  "chat env message sessionId st =
     (case chat_triggered env message sessionId st of
        (messageCount, st3) \<Rightarrow>
          (let context = buildContext st3 sessionId in
           case callAPI (api_chat env) context st3 of
             (Inl err, st4) \<Rightarrow> (Json500 err, st4\<lparr>console := console st4 @ [RequestFailed err]\<rparr>)
           | (Inr aiResponse, st4) \<Rightarrow>
               (let st5 = saveMessage (now_assistant env) (emb_assistant env)
                            sessionId Assistant aiResponse st4;
                    longTermCount = length (getLongTermMemory st5 sessionId);
                    shortTermRounds =
                      (int (length context) - 1 - (if longTermCount > 0 then 1 else 0)) div 2
                in (Json200 aiResponse
                      \<lparr>totalMessages = messageCount + 1, model = MODEL,
                        longTermMemory = longTermCount, shortTermRounds = shortTermRounds\<rparr>,
                    st5))))"

text \<open>A sequence of requests to \<open>/api/chat\<close>, served one after the other.\<close>

fun chats :: "(turn_env \<times> jsstring \<times> jsstring) list \<Rightarrow> state \<Rightarrow> state" where
  "chats [] st = st"
| "chats ((env, message, sessionId) # turns) st =
     chats turns (snd (chat env message sessionId st))"

definition post_chat :: "turn_env \<Rightarrow> jsstring \<Rightarrow> jsstring option \<Rightarrow> state \<Rightarrow> response \<times> state" where
  "post_chat env message sessionId st =
     chat env message (case sessionId of None \<Rightarrow> DEFAULT_SESSION | Some s \<Rightarrow> s) st"

section \<open>Semantic retrieval (\<open>vector-storage.js\<close>)\<close>






section \<open>The fallback embedding as the specification words it\<close>

text \<open>
  The code points of a string: a high surrogate followed by a low surrogate is one code
  point beyond the Basic Multilingual Plane; any other code unit is its own code point.
\<close>

fun codePoints :: "jsstring \<Rightarrow> nat list" where
  "codePoints [] = []"
| "codePoints [c] = [unat c]"
| "codePoints (hi # lo # cs) =
     (if 0xD800 \<le> hi \<and> hi \<le> 0xDBFF \<and> 0xDC00 \<le> lo \<and> lo \<le> 0xDFFF
      then (0x10000 + (unat hi - 0xD800) * 0x400 + (unat lo - 0xDC00)) # codePoints cs
      else unat hi # codePoints (lo # cs))"

text \<open>
  The specification's function on a sequence of character codes: bucket \<open>b\<close> counts the
  codes congruent to \<open>b\<close> modulo 128, and the vector is divided by its Euclidean norm
  unless that norm is zero.
\<close>

definition spec_histogram :: "nat list \<Rightarrow> real list" where
  "spec_histogram codes = map (\<lambda>b. real (length (filter (\<lambda>c. c mod 128 = b) codes))) [0..<128]"

definition euclidean_norm :: "real list \<Rightarrow> real" where
  "euclidean_norm v = sqrt (sum_list (map (\<lambda>x. x * x) v))"

definition spec_embedding :: "nat list \<Rightarrow> real list" where
  "spec_embedding codes =
     (let h = spec_histogram codes in
      if euclidean_norm h = 0 then h else map (\<lambda>x. x / euclidean_norm h) h)"

section \<open>Notions used in the statements\<close>

text \<open>The message that \<open>saveMessage\<close> appends when the id counter stands at \<open>i\<close>.\<close>

definition stored_message ::
  "nat \<Rightarrow> int \<Rightarrow> real list option \<Rightarrow> jsstring \<Rightarrow> role \<Rightarrow> jsstring \<Rightarrow> message" where
  "stored_message i now answer sessionId r c =
     \<lparr>msg_id = i, msg_session_id = sessionId, msg_role = r, msg_content = c,
      msg_tokens = estimateTokens c, msg_timestamp = now, msg_is_summarized = 0,
      msg_embedding = getEmbedding answer c\<rparr>"

text \<open>
  A later version of a stored message: every field but the flag is the same, and the flag
  is the same or has been set to 1. A message is unsummarized when its flag is 0, so a
  summarized message has summarized later versions only.
\<close>

definition later_version :: "message \<Rightarrow> message \<Rightarrow> bool" where
  "later_version m m' \<longleftrightarrow>
     m' = m\<lparr>msg_is_summarized := msg_is_summarized m'\<rparr> \<and>
     (msg_is_summarized m' = msg_is_summarized m \<or> msg_is_summarized m' = 1)"

text \<open>A later version of the message table: the old rows in place, new rows after them.\<close>

definition log_extends :: "message list \<Rightarrow> message list \<Rightarrow> bool" where
  "log_extends ms ms' \<longleftrightarrow>
     length ms \<le> length ms' \<and> list_all2 later_version ms (take (length ms) ms')"

text \<open>Message ids are pairwise different and below the id counter.\<close>

definition ids_fresh :: "state \<Rightarrow> bool" where
  "ids_fresh st \<longleftrightarrow>
     distinct (map msg_id (messages st)) \<and>
     list_all (\<lambda>m. msg_id m < messageIdCounter st) (messages st)"

text \<open>A session of \<open>n\<close> unsummarized messages, alternating user and assistant.\<close>

definition S1 :: jsstring where
  "S1 = [0x73, 0x31]"

definition HI :: jsstring where
  "HI = [0x48, 0x69]"

definition sample_message :: "nat \<Rightarrow> message" where
  "sample_message i =
     \<lparr>msg_id = i + 1, msg_session_id = S1,
      msg_role = (if even i then User else Assistant), msg_content = HI,
      msg_tokens = 1, msg_timestamp = int i + 1, msg_is_summarized = 0,
      msg_embedding = [1, 0]\<rparr>"

definition sample_state :: "nat \<Rightarrow> state" where
  "sample_state n =
     \<lparr>messages = map sample_message [0..<n], memories = [],
      sessions = [(S1, \<lparr>sess_id = S1, sess_createdAt = 1, sess_updatedAt = int n\<rparr>)],
      messageIdCounter = n + 1, console = [], completions = []\<rparr>"

definition sample_env :: "api_outcome \<Rightarrow> api_outcome \<Rightarrow> turn_env" where
  "sample_env summary_outcome chat_outcome =
     \<lparr>now_session = 100, now_user = 100, emb_user = Some [1, 0],
      api_summary = summary_outcome, now_summary = 101, emb_summary = Some [0, 1],
      api_chat = chat_outcome, now_assistant = 102, emb_assistant = Some [1, 1]\<rparr>"





text \<open>Stores for the examples of the window and of the context.\<close>

definition timed_message :: "nat \<Rightarrow> role \<Rightarrow> 16 word \<Rightarrow> int \<Rightarrow> nat \<Rightarrow> message" where
  "timed_message i r c ts flag =
     \<lparr>msg_id = i, msg_session_id = S1, msg_role = r, msg_content = [c],
      msg_tokens = 1, msg_timestamp = ts, msg_is_summarized = flag, msg_embedding = []\<rparr>"

definition recent_state :: state where
  "recent_state =
     \<lparr>messages =
        [timed_message 1 User 0x61 1 0, timed_message 2 Assistant 0x62 2 0,
         timed_message 3 User 0x63 3 0, timed_message 4 Assistant 0x64 4 0,
         timed_message 5 User 0x65 5 0],
      memories = [], sessions = [], messageIdCounter = 6, console = [], completions = []\<rparr>"

definition tie_state :: state where
  "tie_state =
     \<lparr>messages =
        [timed_message 1 User 0x61 1 0, timed_message 2 Assistant 0x62 1 0,
         timed_message 3 User 0x63 2 0],
      memories = [], sessions = [], messageIdCounter = 4, console = [], completions = []\<rparr>"

definition context_state :: state where
  "context_state =
     \<lparr>messages =
        [timed_message 1 User 0x61 1 1, timed_message 2 Assistant 0x62 2 0,
         timed_message 3 User 0x63 3 0],
      memories =
        [\<lparr>mem_session_id = S1, mem_summary = [0x42], mem_created_at = 20, mem_embedding = []\<rparr>,
         \<lparr>mem_session_id = HI, mem_summary = [0x58], mem_created_at = 5, mem_embedding = []\<rparr>,
         \<lparr>mem_session_id = S1, mem_summary = [0x41], mem_created_at = 10, mem_embedding = []\<rparr>],
      sessions = [], messageIdCounter = 4, console = [], completions = []\<rparr>"

text \<open>The completion endpoint answers with a reply.\<close>

fun is_reply :: "api_outcome \<Rightarrow> bool" where
  "is_reply (Reply c) = True"
| "is_reply outcome = False"

text \<open>Every turn of the sequence is in the given session and gets its reply.\<close>

definition completed_turns :: "jsstring \<Rightarrow> (turn_env \<times> jsstring \<times> jsstring) list \<Rightarrow> bool" where
  "completed_turns sessionId turns =
     list_all (\<lambda>(env, message, s). s = sessionId \<and> is_reply (api_chat env)) turns"

section \<open>Effects of the storage operations\<close>

lemma insertSession_fields:
  "messages (insertSession sid c u st) = messages st"
  "memories (insertSession sid c u st) = memories st"
  "messageIdCounter (insertSession sid c u st) = messageIdCounter st"
  "console (insertSession sid c u st) = console st"
  "completions (insertSession sid c u st) = completions st"
  by (simp_all add: insertSession_def)

lemma touchSession_fields:
  "messages (touchSession u sid st) = messages st"
  "memories (touchSession u sid st) = memories st"
  "messageIdCounter (touchSession u sid st) = messageIdCounter st"
  "console (touchSession u sid st) = console st"
  "completions (touchSession u sid st) = completions st"
  by (simp_all add: touchSession_def)

lemma ensureSession_fields:
  "messages (ensureSession now sid st) = messages st"
  "memories (ensureSession now sid st) = memories st"
  "messageIdCounter (ensureSession now sid st) = messageIdCounter st"
  "console (ensureSession now sid st) = console st"
  "completions (ensureSession now sid st) = completions st"
  by (simp_all add: ensureSession_def insertSession_fields)

lemma saveMessage_fields:
  "messages (saveMessage now answer sid r c st) =
     messages st @ [stored_message (messageIdCounter st) now answer sid r c]"
  "memories (saveMessage now answer sid r c st) = memories st"
  "messageIdCounter (saveMessage now answer sid r c st) = messageIdCounter st + 1"
  "console (saveMessage now answer sid r c st) = console st"
  "completions (saveMessage now answer sid r c st) = completions st"
  by (simp_all add: saveMessage_def touchSession_fields insertMessage_def stored_message_def)

lemma stored_message_sel:
  "msg_id (stored_message i now answer sid r c) = i"
  "msg_session_id (stored_message i now answer sid r c) = sid"
  "msg_role (stored_message i now answer sid r c) = r"
  "msg_content (stored_message i now answer sid r c) = c"
  "msg_timestamp (stored_message i now answer sid r c) = now"
  "msg_is_summarized (stored_message i now answer sid r c) = 0"
  by (simp_all add: stored_message_def)

lemma markSummarized_fields:
  "messages (markSummarized ids st) = fold mark_first ids (messages st)"
  "memories (markSummarized ids st) = memories st"
  "sessions (markSummarized ids st) = sessions st"
  "messageIdCounter (markSummarized ids st) = messageIdCounter st"
  "console (markSummarized ids st) = console st"
  "completions (markSummarized ids st) = completions st"
  by (induction ids arbitrary: st; simp add: markSummarized_def updateSummarized_def)+

lemma insertMemory_fields:
  "messages (insertMemory answer sid summary now st) = messages st"
  "sessions (insertMemory answer sid summary now st) = sessions st"
  "messageIdCounter (insertMemory answer sid summary now st) = messageIdCounter st"
  "console (insertMemory answer sid summary now st) = console st"
  "completions (insertMemory answer sid summary now st) = completions st"
  by (simp_all add: insertMemory_def)

lemma count_saveMessage:
  "getMessageCount (saveMessage now answer sid r c st) sid' =
     getMessageCount st sid' + (if sid = sid' then 1 else 0)"
  by (simp add: getMessageCount_def countUnsummarized_def saveMessage_fields
      unsummarized_of_def stored_message_sel)

lemma count_ensureSession:
  "getMessageCount (ensureSession now sid st) sid' = getMessageCount st sid'"
  by (simp add: getMessageCount_def countUnsummarized_def ensureSession_fields)

lemma length_selectUnsummarized:
  "length (selectUnsummarized st sid) = getMessageCount st sid"
  by (simp add: selectUnsummarized_def getMessageCount_def countUnsummarized_def)

lemma generateSummary_skip:
  "length (selectUnsummarized st sid) < 5 \<Longrightarrow> generateSummary env sid st = st"
  by (simp add: generateSummary_def)

lemma generateSummary_failure:
  assumes "5 \<le> length (selectUnsummarized st sid)"
    and "api_result (api_summary env) = Inl err"
  shows "generateSummary env sid st =
     st\<lparr>completions := completions st @ [summaryMessages (selectUnsummarized st sid)],
        console := console st @ [SummaryFailed err]\<rparr>"
  using assms by (simp add: generateSummary_def Let_def callAPI_def)

lemma generateSummary_success:
  assumes "5 \<le> length (selectUnsummarized st sid)"
    and "api_result (api_summary env) = Inr summary"
  shows "generateSummary env sid st =
     (markSummarized (map msg_id (selectUnsummarized st sid))
        (insertMemory (emb_summary env) sid summary (now_summary env)
           (st\<lparr>completions := completions st @ [summaryMessages (selectUnsummarized st sid)]\<rparr>)))
      \<lparr>console := console st @ [Compressed (length (selectUnsummarized st sid))]\<rparr>"
  using assms
  by (simp add: generateSummary_def Let_def callAPI_def markSummarized_fields insertMemory_fields)

lemma generateSummary_completions:
  "completions (generateSummary env sid st) =
     (if length (selectUnsummarized st sid) < 5 then completions st
      else completions st @ [summaryMessages (selectUnsummarized st sid)])"
proof (cases "length (selectUnsummarized st sid) < 5")
  case True
  then show ?thesis by (simp add: generateSummary_skip)
next
  case False
  then have big: "5 \<le> length (selectUnsummarized st sid)" by simp
  show ?thesis
  proof (cases "api_result (api_summary env)")
    case (Inl err)
    with big False show ?thesis by (simp add: generateSummary_failure)
  next
    case (Inr summary)
    with big False show ?thesis
      by (simp add: generateSummary_success markSummarized_fields insertMemory_fields)
  qed
qed

lemma sample_unsummarized:
  "filter (unsummarized_of S1) (messages (sample_state n)) = map sample_message [0..<n]"
  by (simp add: sample_state_def unsummarized_of_def sample_message_def filter_map o_def)

lemma sample_count: "getMessageCount (sample_state n) S1 = n"
  by (simp add: getMessageCount_def countUnsummarized_def sample_unsummarized)

lemma generateSummary_failure_state:
  assumes "api_result (api_summary env) = Inl err"
  shows "generateSummary env sid st =
     (if length (selectUnsummarized st sid) < 5 then st
      else st\<lparr>completions := completions st @ [summaryMessages (selectUnsummarized st sid)],
              console := console st @ [SummaryFailed err]\<rparr>)"
  using assms by (simp add: generateSummary_skip generateSummary_failure)

lemma chat_triggered_unfold:
  "chat_triggered env message sid st =
     (getMessageCount st sid + 1,
      if (getMessageCount st sid + 1) mod SUMMARY_TRIGGER_ROUNDS = 0
      then generateSummary env sid
             (saveMessage (now_user env) (emb_user env) sid User message
                (ensureSession (now_session env) sid st))
      else saveMessage (now_user env) (emb_user env) sid User message
             (ensureSession (now_session env) sid st))"
  by (simp add: chat_triggered_def Let_def count_saveMessage count_ensureSession)

section \<open>The summarization trigger\<close>

text \<open>
  C2. After the user message is appended, the handler reads the session's count of
  unsummarized messages, which is one more than before the append, and runs
  \<open>generateSummary\<close> exactly when that count is positive and divisible by
  \<open>SUMMARY_TRIGGER_ROUNDS\<close>, which is 10: the state after the check is that of
  \<open>generateSummary\<close> in that case and the state after the append otherwise, and a request
  goes to the completion endpoint during the check exactly in that case. Whenever
  \<open>generateSummary\<close> finds fewer than 5 unsummarized messages it returns the state as it
  was: nothing is stored, marked, logged or sent.
\<close>

theorem trigger_policy:
  "let st2 = saveMessage (now_user env) (emb_user env) sid User message
               (ensureSession (now_session env) sid st);
       c = getMessageCount st2 sid;
       fires = (0 < c \<and> c mod SUMMARY_TRIGGER_ROUNDS = 0)
   in SUMMARY_TRIGGER_ROUNDS = 10 \<and>
      c = getMessageCount st sid + 1 \<and>
      chat_triggered env message sid st =
        (c, if fires then generateSummary env sid st2 else st2) \<and>
      (completions (snd (chat_triggered env message sid st)) \<noteq> completions st \<longleftrightarrow> fires) \<and>
      (length (selectUnsummarized st' sid') < 5 \<longrightarrow> generateSummary env' sid' st' = st')"
proof -
  define st2 where "st2 = saveMessage (now_user env) (emb_user env) sid User message
               (ensureSession (now_session env) sid st)"
  define c where "c = getMessageCount st2 sid"
  have c: "c = getMessageCount st sid + 1"
    by (simp add: c_def st2_def count_saveMessage count_ensureSession)
  have run: "chat_triggered env message sid st =
      (c, if 0 < c \<and> c mod SUMMARY_TRIGGER_ROUNDS = 0 then generateSummary env sid st2 else st2)"
    by (simp add: chat_triggered_def Let_def st2_def c_def)
  have same: "completions st2 = completions st"
    by (simp add: st2_def saveMessage_fields ensureSession_fields)
  have sent: "completions (snd (chat_triggered env message sid st)) \<noteq> completions st
      \<longleftrightarrow> 0 < c \<and> c mod SUMMARY_TRIGGER_ROUNDS = 0"
  proof (cases "0 < c \<and> c mod SUMMARY_TRIGGER_ROUNDS = 0")
    case True
    then have "10 \<le> c" by (auto simp add: SUMMARY_TRIGGER_ROUNDS_def)
    then have "\<not> length (selectUnsummarized st2 sid) < 5"
      by (simp add: length_selectUnsummarized c_def)
    with True show ?thesis
      by (simp add: run generateSummary_completions same)
  next
    case False
    then show ?thesis by (auto simp add: run same)
  qed
  have guard: "length (selectUnsummarized st' sid') < 5 \<longrightarrow> generateSummary env' sid' st' = st'"
    by (simp add: generateSummary_skip)
  show ?thesis
    unfolding Let_def st2_def [symmetric] c_def [symmetric]
    using c run sent guard by (simp add: SUMMARY_TRIGGER_ROUNDS_def)
qed

theorem trigger_policy_witness:
  "fst (chat_triggered (sample_env NetworkFailure (Reply HI)) HI S1 (sample_state 9)) = 10 \<and>
   completions (snd (chat_triggered (sample_env NetworkFailure (Reply HI)) HI S1 (sample_state 9)))
     \<noteq> completions (sample_state 9) \<and>
   fst (chat_triggered (sample_env NetworkFailure (Reply HI)) HI S1 (sample_state 4)) = 5 \<and>
   completions (snd (chat_triggered (sample_env NetworkFailure (Reply HI)) HI S1 (sample_state 4)))
     = completions (sample_state 4) \<and>
   length (selectUnsummarized (sample_state 4) S1) < 5 \<and>
   generateSummary (sample_env (Reply HI) (Reply HI)) S1 (sample_state 4) = sample_state 4"
  using trigger_policy [of "sample_env NetworkFailure (Reply HI)" S1 HI "sample_state 9"
      "sample_state 4" S1 "sample_env (Reply HI) (Reply HI)"]
    trigger_policy [of "sample_env NetworkFailure (Reply HI)" S1 HI "sample_state 4"
      "sample_state 4" S1 "sample_env (Reply HI) (Reply HI)"]
  by (auto simp add: Let_def sample_count length_selectUnsummarized count_saveMessage
      count_ensureSession SUMMARY_TRIGGER_ROUNDS_def)

section \<open>A failed summarization pass\<close>

lemma chat_after_failed_summary:
  assumes fail: "api_result (api_summary env) = Inl err"
  shows "messages (snd (chat_triggered env message sid st)) =
           messages st @ [stored_message (messageIdCounter st) (now_user env) (emb_user env)
                            sid User message]"
    and "memories (snd (chat_triggered env message sid st)) = memories st"
    and "messageIdCounter (snd (chat_triggered env message sid st)) = messageIdCounter st + 1"
  by (simp_all add: chat_triggered_unfold generateSummary_failure_state [OF fail]
      saveMessage_fields ensureSession_fields)

lemma chat_reply:
  assumes "api_result (api_chat env) = Inr reply"
  shows "chat env message sid st =
     (Json200 reply
        \<lparr>totalMessages = fst (chat_triggered env message sid st) + 1, model = MODEL,
          longTermMemory = length (getLongTermMemory
             (saveMessage (now_assistant env) (emb_assistant env) sid Assistant reply
                (snd (callAPI (api_chat env)
                   (buildContext (snd (chat_triggered env message sid st)) sid)
                   (snd (chat_triggered env message sid st))))) sid),
          shortTermRounds =
            (int (length (buildContext (snd (chat_triggered env message sid st)) sid)) - 1 -
             (if length (getLongTermMemory
               (saveMessage (now_assistant env) (emb_assistant env) sid Assistant reply
                (snd (callAPI (api_chat env)
                   (buildContext (snd (chat_triggered env message sid st)) sid)
                   (snd (chat_triggered env message sid st))))) sid) > 0 then 1 else 0)) div 2\<rparr>,
      saveMessage (now_assistant env) (emb_assistant env) sid Assistant reply
        (snd (callAPI (api_chat env)
           (buildContext (snd (chat_triggered env message sid st)) sid)
           (snd (chat_triggered env message sid st)))))"
  using assms by (simp add: chat_def callAPI_def Let_def split: prod.splits)

lemma chat_reply_state:
  assumes "api_result (api_chat env) = Inr reply"
  shows "snd (chat env message sid st) =
      saveMessage (now_assistant env) (emb_assistant env) sid Assistant reply
        ((snd (chat_triggered env message sid st))
           \<lparr>completions := completions (snd (chat_triggered env message sid st)) @
              [buildContext (snd (chat_triggered env message sid st)) sid]\<rparr>)"
  by (simp add: chat_reply [OF assms] callAPI_def)

text \<open>
  C3. When the completion call of a summarization pass fails, \<open>generateSummary\<close> returns
  the state it was given except for one line on the console and the record of the request
  that was sent: the messages with their flags, the summaries, the sessions and the id
  counter are the same. The chat turn goes on: when its own completion call succeeds, the
  handler answers 200 with the reply, no summary has been stored, and the message table is
  the old one, unchanged, followed by the user message and the reply.
\<close>

theorem failed_summarization_is_recovered:
  assumes "api_result (api_summary env) = Inl err"
  shows "generateSummary env sid st =
           (if length (selectUnsummarized st sid) < 5 then st
            else st\<lparr>completions := completions st @
                       [summaryMessages (selectUnsummarized st sid)],
                    console := console st @ [SummaryFailed err]\<rparr>) \<and>
         messages (generateSummary env sid st) = messages st \<and>
         memories (generateSummary env sid st) = memories st \<and>
         sessions (generateSummary env sid st) = sessions st \<and>
         messageIdCounter (generateSummary env sid st) = messageIdCounter st \<and>
         selectUnsummarized (generateSummary env sid st) sid = selectUnsummarized st sid \<and>
         (api_result (api_chat env) = Inr reply \<longrightarrow>
            (\<exists>dbg. fst (chat env message sid st) = Json200 reply dbg) \<and>
            memories (snd (chat env message sid st)) = memories st \<and>
            messages (snd (chat env message sid st)) =
              messages st @
              [stored_message (messageIdCounter st) (now_user env) (emb_user env)
                 sid User message,
               stored_message (messageIdCounter st + 1) (now_assistant env) (emb_assistant env)
                 sid Assistant reply])"
proof -
  note gs = generateSummary_failure_state [OF assms, of sid st]
  have fields: "messages (generateSummary env sid st) = messages st"
    "memories (generateSummary env sid st) = memories st"
    "sessions (generateSummary env sid st) = sessions st"
    "messageIdCounter (generateSummary env sid st) = messageIdCounter st"
    by (simp_all add: gs)
  have batch: "selectUnsummarized (generateSummary env sid st) sid = selectUnsummarized st sid"
    by (simp add: selectUnsummarized_def fields)
  have turn: "(\<exists>dbg. fst (chat env message sid st) = Json200 reply dbg) \<and>
            memories (snd (chat env message sid st)) = memories st \<and>
            messages (snd (chat env message sid st)) =
              messages st @
              [stored_message (messageIdCounter st) (now_user env) (emb_user env)
                 sid User message,
               stored_message (messageIdCounter st + 1) (now_assistant env) (emb_assistant env)
                 sid Assistant reply]"
    if ok: "api_result (api_chat env) = Inr reply"
  proof -
    have "\<exists>dbg. fst (chat env message sid st) = Json200 reply dbg"
      by (simp add: chat_reply [OF ok])
    moreover have "memories (snd (chat env message sid st)) = memories st"
      by (simp add: chat_reply_state [OF ok] saveMessage_fields
          chat_after_failed_summary [OF assms])
    moreover have "messages (snd (chat env message sid st)) =
              messages st @
              [stored_message (messageIdCounter st) (now_user env) (emb_user env)
                 sid User message,
               stored_message (messageIdCounter st + 1) (now_assistant env) (emb_assistant env)
                 sid Assistant reply]"
      by (simp add: chat_reply_state [OF ok] saveMessage_fields
          chat_after_failed_summary [OF assms])
    ultimately show ?thesis by blast
  qed
  from gs fields batch turn show ?thesis by blast
qed

theorem failed_summarization_witness:
  "api_result (api_summary (sample_env BadJson (Reply HI))) = Inl JsonError \<and>
   api_result (api_chat (sample_env BadJson (Reply HI))) = Inr HI \<and>
   console (generateSummary (sample_env BadJson (Reply HI)) S1 (sample_state 10)) =
     [SummaryFailed JsonError] \<and>
   messages (generateSummary (sample_env BadJson (Reply HI)) S1 (sample_state 10)) =
     messages (sample_state 10) \<and>
   memories (snd (chat (sample_env BadJson (Reply HI)) HI S1 (sample_state 9))) = [] \<and>
   length (messages (snd (chat (sample_env BadJson (Reply HI)) HI S1 (sample_state 9)))) = 11 \<and>
   console (snd (chat (sample_env BadJson (Reply HI)) HI S1 (sample_state 9))) =
     [SummaryFailed JsonError]"
proof -
  let ?env = "sample_env BadJson (Reply HI)"
  have fail: "api_result (api_summary ?env) = Inl JsonError"
    by (simp add: sample_env_def api_result_def)
  have ok: "api_result (api_chat ?env) = Inr HI"
    by (simp add: sample_env_def api_result_def)
  note thm10 = failed_summarization_is_recovered [OF fail, of S1 "sample_state 10" HI HI]
  note thm9 = failed_summarization_is_recovered [OF fail, of S1 "sample_state 9" HI HI]
  have len10: "\<not> length (selectUnsummarized (sample_state 10) S1) < 5"
    by (simp add: length_selectUnsummarized sample_count)
  from thm10 len10 have c1: "console (generateSummary ?env S1 (sample_state 10)) =
     [SummaryFailed JsonError]"
    by (simp add: sample_state_def)
  from thm10 have c2: "messages (generateSummary ?env S1 (sample_state 10)) =
     messages (sample_state 10)" by blast
  from thm9 ok have c3: "memories (snd (chat ?env HI S1 (sample_state 9))) = []"
    by (simp add: sample_state_def)
  from thm9 ok have c4: "length (messages (snd (chat ?env HI S1 (sample_state 9)))) = 11"
    by (simp add: sample_state_def)
  have c5: "console (snd (chat ?env HI S1 (sample_state 9))) = [SummaryFailed JsonError]"
    by (simp add: chat_reply_state [OF ok] saveMessage_fields chat_triggered_unfold
        sample_count SUMMARY_TRIGGER_ROUNDS_def generateSummary_failure_state [OF fail]
        length_selectUnsummarized count_saveMessage count_ensureSession ensureSession_fields)
      (simp add: sample_state_def)
  from fail ok c1 c2 c3 c4 c5 show ?thesis by blast
qed

section \<open>The trigger on a session whose turns all complete\<close>

lemma is_reply_result:
  assumes "is_reply outcome"
  shows "\<exists>reply. api_result outcome = Inr reply"
  using assms by (cases outcome) (simp_all add: api_result_def)

lemma count_completions_update:
  "getMessageCount (st\<lparr>completions := c\<rparr>) sid = getMessageCount st sid"
  by (simp add: getMessageCount_def countUnsummarized_def)

lemma completed_turn_on_even_count:
  assumes even: "even (getMessageCount st sid)"
    and reply: "is_reply (api_chat env)"
  shows "chat_triggered env message sid st =
           (getMessageCount st sid + 1,
            saveMessage (now_user env) (emb_user env) sid User message
              (ensureSession (now_session env) sid st))"
    and "memories (snd (chat env message sid st)) = memories st"
    and "console (snd (chat env message sid st)) = console st"
    and "getMessageCount (snd (chat env message sid st)) sid = getMessageCount st sid + 2"
proof -
  from even have "odd (getMessageCount st sid + 1)" by simp
  then have "(getMessageCount st sid + 1) mod 10 \<noteq> 0"
    by presburger
  then show trig: "chat_triggered env message sid st =
           (getMessageCount st sid + 1,
            saveMessage (now_user env) (emb_user env) sid User message
              (ensureSession (now_session env) sid st))"
    by (simp add: chat_triggered_unfold SUMMARY_TRIGGER_ROUNDS_def)
  from reply obtain r where r: "api_result (api_chat env) = Inr r"
    using is_reply_result by blast
  show "memories (snd (chat env message sid st)) = memories st"
    by (simp add: chat_reply_state [OF r] trig saveMessage_fields ensureSession_fields)
  show "console (snd (chat env message sid st)) = console st"
    by (simp add: chat_reply_state [OF r] trig saveMessage_fields ensureSession_fields)
  show "getMessageCount (snd (chat env message sid st)) sid = getMessageCount st sid + 2"
    by (simp add: chat_reply_state [OF r] trig count_saveMessage count_completions_update
        count_ensureSession)
qed

lemma completed_turns_on_even_count:
  assumes "even (getMessageCount st sid)" and "completed_turns sid turns"
  shows "memories (chats turns st) = memories st \<and>
         console (chats turns st) = console st \<and>
         getMessageCount (chats turns st) sid = getMessageCount st sid + 2 * length turns"
  using assms
proof (induction turns arbitrary: st)
  case Nil
  then show ?case by simp
next
  case (Cons turn turns)
  obtain env message s where turn: "turn = (env, message, s)"
    by (cases turn) auto
  from Cons.prems turn have s: "s = sid" and reply: "is_reply (api_chat env)"
    and rest: "completed_turns sid turns"
    by (simp_all add: completed_turns_def)
  let ?st = "snd (chat env message sid st)"
  note step = completed_turn_on_even_count [OF Cons.prems(1) reply, of message]
  from step(4) Cons.prems(1) have "even (getMessageCount ?st sid)" by simp
  from Cons.IH [OF this rest] step show ?case
    by (simp add: turn s)
qed

text \<open>
  C1 fails on the code. On a fresh store, after any number \<open>n\<close> of turns of one session
  that all got their reply, no summary has been stored and the session has \<open>2 n\<close>
  unsummarized messages; the next turn reads the count \<open>2 n + 1\<close> at its trigger check.
  That count is odd, hence never a multiple of \<open>SUMMARY_TRIGGER_ROUNDS = 10\<close>, so the
  check does not run \<open>generateSummary\<close>, and after the turn there is still no summary.
  With \<open>n = 9\<close>: the tenth check reads 19, and after ten round trips the store holds 20
  unsummarized messages and no summary.
\<close>

theorem completed_turns_never_summarize:
  assumes "completed_turns sid turns" and "is_reply (api_chat env)"
  shows "memories (chats turns init_state) = [] \<and>
         getMessageCount (chats turns init_state) sid = 2 * length turns \<and>
         fst (chat_triggered env message sid (chats turns init_state)) = 2 * length turns + 1 \<and>
         fst (chat_triggered env message sid (chats turns init_state)) mod SUMMARY_TRIGGER_ROUNDS
           \<noteq> 0 \<and>
         memories (snd (chat env message sid (chats turns init_state))) = [] \<and>
         console (snd (chat env message sid (chats turns init_state))) = [] \<and>
         getMessageCount (snd (chat env message sid (chats turns init_state))) sid =
           2 * length turns + 2"
proof -
  have zero: "getMessageCount init_state sid = 0"
    by (simp add: getMessageCount_def countUnsummarized_def init_state_def)
  then have "even (getMessageCount init_state sid)" by simp
  from completed_turns_on_even_count [OF this assms(1)] zero
  have run: "memories (chats turns init_state) = []" "console (chats turns init_state) = []"
    "getMessageCount (chats turns init_state) sid = 2 * length turns"
    by (simp_all add: init_state_def)
  then have even: "even (getMessageCount (chats turns init_state) sid)" by simp
  note step = completed_turn_on_even_count [OF even assms(2), of message]
  have "odd (2 * length turns + 1)" by simp
  then have "(2 * length turns + 1) mod 10 \<noteq> 0" by presburger
  with run step show ?thesis
    by (simp add: SUMMARY_TRIGGER_ROUNDS_def)
qed

theorem ten_round_trips_witness:
  "completed_turns S1 (replicate 9 (sample_env BadJson (Reply HI), HI, S1)) \<and>
   is_reply (api_chat (sample_env BadJson (Reply HI))) \<and>
   fst (chat_triggered (sample_env BadJson (Reply HI)) HI S1
          (chats (replicate 9 (sample_env BadJson (Reply HI), HI, S1)) init_state)) = 19 \<and>
   memories (snd (chat (sample_env BadJson (Reply HI)) HI S1
          (chats (replicate 9 (sample_env BadJson (Reply HI), HI, S1)) init_state))) = [] \<and>
   getMessageCount (snd (chat (sample_env BadJson (Reply HI)) HI S1
          (chats (replicate 9 (sample_env BadJson (Reply HI), HI, S1)) init_state))) S1 = 20"
proof -
  let ?env = "sample_env BadJson (Reply HI)"
  let ?turns = "replicate 9 (?env, HI, S1)"
  have reply: "is_reply (api_chat ?env)" by (simp add: sample_env_def)
  then have turns: "completed_turns S1 ?turns"
    by (simp add: completed_turns_def list_all_iff)
  from completed_turns_never_summarize [OF turns reply, of HI] turns reply
  show ?thesis by simp
qed

section \<open>Stored messages change in the flag only\<close>

lemma later_version_refl: "later_version m m"
  by (simp add: later_version_def)

lemma later_version_mark: "later_version m (m\<lparr>msg_is_summarized := 1\<rparr>)"
  by (simp add: later_version_def)

lemma later_version_trans:
  assumes "later_version m m'" and "later_version m' m''"
  shows "later_version m m''"
proof -
  from assms have a: "m' = m\<lparr>msg_is_summarized := msg_is_summarized m'\<rparr>"
    and b: "m'' = m'\<lparr>msg_is_summarized := msg_is_summarized m''\<rparr>"
    by (simp_all add: later_version_def)
  have "m'' = m\<lparr>msg_is_summarized := msg_is_summarized m'\<rparr>
      \<lparr>msg_is_summarized := msg_is_summarized m''\<rparr>"
    using a b by simp
  then have "m'' = m\<lparr>msg_is_summarized := msg_is_summarized m''\<rparr>"
    by simp
  moreover from assms have "msg_is_summarized m'' = msg_is_summarized m \<or>
      msg_is_summarized m'' = 1"
    by (auto simp add: later_version_def)
  ultimately show ?thesis by (simp add: later_version_def)
qed

lemma log_extends_refl: "log_extends ms ms"
  by (simp add: log_extends_def list_all2_refl later_version_refl)

lemma log_extends_append: "log_extends ms (ms @ new)"
  by (simp add: log_extends_def list_all2_refl later_version_refl)

lemma log_extends_trans:
  assumes "log_extends ms ms'" and "log_extends ms' ms''"
  shows "log_extends ms ms''"
proof -
  from assms have len: "length ms \<le> length ms'" "length ms' \<le> length ms''"
    by (simp_all add: log_extends_def)
  from assms have "list_all2 later_version (take (length ms) ms')
      (take (length ms) (take (length ms') ms''))"
    unfolding log_extends_def by (blast intro: list_all2_takeI)
  with len have step2: "list_all2 later_version (take (length ms) ms') (take (length ms) ms'')"
    by (simp add: min_def)
  from assms have step1: "list_all2 later_version ms (take (length ms) ms')"
    by (simp add: log_extends_def)
  have "list_all2 later_version ms (take (length ms) ms'')"
    using later_version_trans step1 step2 by (rule list_all2_trans)
  with len show ?thesis by (simp add: log_extends_def)
qed

lemma length_mark_first: "length (mark_first i ms) = length ms"
  by (induction ms) simp_all

lemma mark_first_later: "list_all2 later_version ms (mark_first i ms)"
  by (induction ms) (auto simp add: later_version_def intro!: list_all2_refl)

lemma log_extends_mark_first: "log_extends ms (mark_first i ms)"
  by (simp add: log_extends_def length_mark_first mark_first_later)

lemma log_extends_fold_mark: "log_extends ms (fold mark_first ids ms)"
proof (induction ids arbitrary: ms)
  case Nil
  show ?case by (simp add: log_extends_refl)
next
  case (Cons i ids)
  have a: "log_extends ms (mark_first i ms)" by (rule log_extends_mark_first)
  have b: "log_extends (mark_first i ms) (fold mark_first ids (mark_first i ms))"
    by (rule Cons.IH)
  from log_extends_trans [OF a b] show ?case by simp
qed

lemma log_extends_generateSummary:
  "log_extends (messages st) (messages (generateSummary env sid st))"
proof (cases "length (selectUnsummarized st sid) < 5")
  case True
  then show ?thesis by (simp add: generateSummary_skip log_extends_refl)
next
  case False
  then have big: "5 \<le> length (selectUnsummarized st sid)" by simp
  show ?thesis
  proof (cases "api_result (api_summary env)")
    case (Inl err)
    then show ?thesis by (simp add: generateSummary_failure_state log_extends_refl)
  next
    case (Inr summary)
    with big show ?thesis
      by (simp add: generateSummary_success markSummarized_fields insertMemory_fields
          log_extends_fold_mark)
  qed
qed

lemma log_extends_saveMessage:
  "log_extends (messages st) (messages (saveMessage now answer sid r c st))"
  by (simp add: saveMessage_fields log_extends_append)

lemma log_extends_chat_triggered:
  "log_extends (messages st) (messages (snd (chat_triggered env message sid st)))"
proof -
  let ?st1 = "ensureSession (now_session env) sid st"
  let ?st2 = "saveMessage (now_user env) (emb_user env) sid User message ?st1"
  have a: "log_extends (messages st) (messages ?st2)"
    using log_extends_saveMessage [of ?st1] by (simp add: ensureSession_fields)
  have b: "log_extends (messages ?st2) (messages (generateSummary env sid ?st2))"
    by (rule log_extends_generateSummary)
  from a log_extends_trans [OF a b] show ?thesis
    by (simp add: chat_triggered_unfold)
qed

lemma log_extends_chat:
  "log_extends (messages st) (messages (snd (chat env message sid st)))"
proof (cases "api_result (api_chat env)")
  case (Inl err)
  then have "messages (snd (chat env message sid st)) =
      messages (snd (chat_triggered env message sid st))"
    by (simp add: chat_def callAPI_def Let_def split: prod.splits)
  then show ?thesis by (simp add: log_extends_chat_triggered)
next
  case (Inr reply)
  let ?st3 = "snd (chat_triggered env message sid st)"
  have "log_extends (messages ?st3) (messages (snd (chat env message sid st)))"
    by (simp add: chat_reply_state [OF Inr] saveMessage_fields log_extends_append)
  with log_extends_chat_triggered [of st env message sid] show ?thesis
    by (rule log_extends_trans)
qed

lemma log_extends_chats: "log_extends (messages st) (messages (chats turns st))"
proof (induction turns arbitrary: st)
  case Nil
  show ?case by (simp add: log_extends_refl)
next
  case (Cons turn turns)
  obtain env message sid where turn: "turn = (env, message, sid)"
    by (cases turn) auto
  have a: "log_extends (messages st) (messages (snd (chat env message sid st)))"
    by (rule log_extends_chat)
  have b: "log_extends (messages (snd (chat env message sid st)))
      (messages (chats turns (snd (chat env message sid st))))"
    by (rule Cons.IH)
  from log_extends_trans [OF a b] show ?case by (simp add: turn)
qed

lemma mark_first_idle:
  assumes "\<forall>m\<in>set ms. msg_id m = i \<longrightarrow> msg_is_summarized m = 1"
  shows "mark_first i ms = ms"
  using assms by (induction ms) auto

lemma fold_mark_first_idle:
  assumes "\<forall>m\<in>set ms. msg_id m \<in> set ids \<longrightarrow> msg_is_summarized m = 1"
  shows "fold mark_first ids ms = ms"
  using assms by (induction ids) (simp_all add: mark_first_idle)

lemma log_extends_nth:
  assumes "log_extends ms ms'" and "k < length ms"
  shows "later_version (ms ! k) (ms' ! k)"
proof -
  from assms have "list_all2 later_version ms (take (length ms) ms')"
    by (simp add: log_extends_def)
  from list_all2_nthD [OF this assms(2)] assms(2) show ?thesis by simp
qed

text \<open>
  C9. Every operation that writes to the store, namely \<open>ensureSession\<close>, \<open>saveMessage\<close>,
  the update of one id, \<open>markSummarized\<close>, \<open>generateSummary\<close>, a chat turn and any sequence
  of chat turns, leaves each stored message in its place with the same id, session, role,
  content, tokens, timestamp and embedding, and with its flag either as it was or set to
  1, so that a summarized message stays summarized; new messages come after the old ones.
  \<open>markSummarized\<close> on ids whose messages all carry the flag 1 returns the state it was
  given.
\<close>

theorem stored_messages_change_in_the_flag_only:
  "log_extends (messages st) (messages (ensureSession now sid st)) \<and>
   log_extends (messages st) (messages (saveMessage now answer sid r c st)) \<and>
   log_extends (messages st) (messages (updateSummarized i st)) \<and>
   log_extends (messages st) (messages (markSummarized ids st)) \<and>
   log_extends (messages st) (messages (generateSummary env sid st)) \<and>
   log_extends (messages st) (messages (snd (chat env message sid st))) \<and>
   log_extends (messages st) (messages (chats turns st)) \<and>
   (log_extends ms ms' \<and> k < length ms \<longrightarrow>
      k < length ms' \<and>
      msg_id (ms' ! k) = msg_id (ms ! k) \<and>
      msg_session_id (ms' ! k) = msg_session_id (ms ! k) \<and>
      msg_role (ms' ! k) = msg_role (ms ! k) \<and>
      msg_content (ms' ! k) = msg_content (ms ! k) \<and>
      msg_tokens (ms' ! k) = msg_tokens (ms ! k) \<and>
      msg_timestamp (ms' ! k) = msg_timestamp (ms ! k) \<and>
      msg_embedding (ms' ! k) = msg_embedding (ms ! k) \<and>
      (msg_is_summarized (ms' ! k) = msg_is_summarized (ms ! k) \<or>
       msg_is_summarized (ms' ! k) = 1)) \<and>
   ((\<forall>m\<in>set (messages st). msg_id m \<in> set ids \<longrightarrow> msg_is_summarized m = 1) \<longrightarrow>
      markSummarized ids st = st)"
proof -
  have unfold: "log_extends ms ms' \<and> k < length ms \<longrightarrow>
      k < length ms' \<and>
      msg_id (ms' ! k) = msg_id (ms ! k) \<and>
      msg_session_id (ms' ! k) = msg_session_id (ms ! k) \<and>
      msg_role (ms' ! k) = msg_role (ms ! k) \<and>
      msg_content (ms' ! k) = msg_content (ms ! k) \<and>
      msg_tokens (ms' ! k) = msg_tokens (ms ! k) \<and>
      msg_timestamp (ms' ! k) = msg_timestamp (ms ! k) \<and>
      msg_embedding (ms' ! k) = msg_embedding (ms ! k) \<and>
      (msg_is_summarized (ms' ! k) = msg_is_summarized (ms ! k) \<or>
       msg_is_summarized (ms' ! k) = 1)"
  proof (intro impI, elim conjE)
    assume ext: "log_extends ms ms'" and k: "k < length ms"
    from ext k have len: "k < length ms'" by (simp add: log_extends_def)
    from log_extends_nth [OF ext k]
    have eq: "ms' ! k = (ms ! k)\<lparr>msg_is_summarized := msg_is_summarized (ms' ! k)\<rparr>"
      and flag: "msg_is_summarized (ms' ! k) = msg_is_summarized (ms ! k) \<or>
        msg_is_summarized (ms' ! k) = 1"
      by (simp_all add: later_version_def)
    have "msg_id (ms' ! k) = msg_id (ms ! k)"
      using arg_cong [OF eq, of msg_id] by simp
    moreover have "msg_session_id (ms' ! k) = msg_session_id (ms ! k)"
      using arg_cong [OF eq, of msg_session_id] by simp
    moreover have "msg_role (ms' ! k) = msg_role (ms ! k)"
      using arg_cong [OF eq, of msg_role] by simp
    moreover have "msg_content (ms' ! k) = msg_content (ms ! k)"
      using arg_cong [OF eq, of msg_content] by simp
    moreover have "msg_tokens (ms' ! k) = msg_tokens (ms ! k)"
      using arg_cong [OF eq, of msg_tokens] by simp
    moreover have "msg_timestamp (ms' ! k) = msg_timestamp (ms ! k)"
      using arg_cong [OF eq, of msg_timestamp] by simp
    moreover have "msg_embedding (ms' ! k) = msg_embedding (ms ! k)"
      using arg_cong [OF eq, of msg_embedding] by simp
    ultimately show "k < length ms' \<and>
      msg_id (ms' ! k) = msg_id (ms ! k) \<and>
      msg_session_id (ms' ! k) = msg_session_id (ms ! k) \<and>
      msg_role (ms' ! k) = msg_role (ms ! k) \<and>
      msg_content (ms' ! k) = msg_content (ms ! k) \<and>
      msg_tokens (ms' ! k) = msg_tokens (ms ! k) \<and>
      msg_timestamp (ms' ! k) = msg_timestamp (ms ! k) \<and>
      msg_embedding (ms' ! k) = msg_embedding (ms ! k) \<and>
      (msg_is_summarized (ms' ! k) = msg_is_summarized (ms ! k) \<or>
       msg_is_summarized (ms' ! k) = 1)"
      using len flag by (intro conjI)
  qed
  have idle: "(\<forall>m\<in>set (messages st). msg_id m \<in> set ids \<longrightarrow> msg_is_summarized m = 1) \<longrightarrow>
      markSummarized ids st = st"
  proof
    assume marked: "\<forall>m\<in>set (messages st). msg_id m \<in> set ids \<longrightarrow> msg_is_summarized m = 1"
    have "markSummarized ids st = st\<lparr>messages := fold mark_first ids (messages st)\<rparr>"
      by (induction ids arbitrary: st) (simp_all add: markSummarized_def updateSummarized_def)
    with marked show "markSummarized ids st = st" by (simp add: fold_mark_first_idle)
  qed
  have o1: "log_extends (messages st) (messages (ensureSession now sid st))"
    by (simp add: ensureSession_fields log_extends_refl)
  have o2: "log_extends (messages st) (messages (saveMessage now answer sid r c st))"
    by (rule log_extends_saveMessage)
  have o3: "log_extends (messages st) (messages (updateSummarized i st))"
    by (simp add: updateSummarized_def log_extends_mark_first)
  have o4: "log_extends (messages st) (messages (markSummarized ids st))"
    by (simp add: markSummarized_fields log_extends_fold_mark)
  have o5: "log_extends (messages st) (messages (generateSummary env sid st))"
    by (rule log_extends_generateSummary)
  have o6: "log_extends (messages st) (messages (snd (chat env message sid st)))"
    by (rule log_extends_chat)
  have o7: "log_extends (messages st) (messages (chats turns st))"
    by (rule log_extends_chats)
  from o1 o2 o3 o4 o5 o6 o7 unfold idle show ?thesis by (intro conjI)
qed

lemma sample_three:
  "messages (sample_state 3) = [sample_message 0, sample_message 1, sample_message 2]"
  by (simp add: sample_state_def upt_conv_Cons numeral_2_eq_2)

lemma sample_three_marked:
  "messages (markSummarized [1, 2] (sample_state 3)) =
     [(sample_message 0)\<lparr>msg_is_summarized := 1\<rparr>,
      (sample_message 1)\<lparr>msg_is_summarized := 1\<rparr>, sample_message 2]"
  by (simp add: markSummarized_fields sample_three) (simp add: sample_message_def)

theorem stored_messages_witness:
  "log_extends (messages (sample_state 3)) (messages (markSummarized [1, 2] (sample_state 3))) \<and>
   (0::nat) < length (messages (sample_state 3)) \<and>
   msg_content (messages (markSummarized [1, 2] (sample_state 3)) ! 0) = HI \<and>
   msg_timestamp (messages (markSummarized [1, 2] (sample_state 3)) ! 0) = 1 \<and>
   msg_is_summarized (messages (markSummarized [1, 2] (sample_state 3)) ! 0) = 1 \<and>
   markSummarized [1, 2] (markSummarized [1, 2] (sample_state 3)) =
     markSummarized [1, 2] (sample_state 3)"
proof -
  let ?st = "sample_state 3"
  let ?st' = "markSummarized [1, 2] ?st"
  note thm1 = stored_messages_change_in_the_flag_only
    [where st = ?st and ids = "[1, 2]" and ms = "messages ?st" and ms' = "messages ?st'"
       and k = 0]
  note thm2 = stored_messages_change_in_the_flag_only
    [where st = ?st' and ids = "[1, 2]" and ms = "messages ?st" and ms' = "messages ?st'"
       and k = 0]
  have marked: "\<forall>m\<in>set (messages ?st'). msg_id m \<in> set [1, 2] \<longrightarrow> msg_is_summarized m = 1"
    by (subst sample_three_marked) (simp add: sample_message_def)
  from thm1 have ext: "log_extends (messages ?st) (messages ?st')" by blast
  have k: "(0::nat) < length (messages ?st)" by (simp add: sample_three)
  from thm1 ext k have same: "msg_content (messages ?st' ! 0) = msg_content (messages ?st ! 0)"
    "msg_timestamp (messages ?st' ! 0) = msg_timestamp (messages ?st ! 0)"
    by blast+
  have "msg_content (messages ?st' ! 0) = HI" "msg_timestamp (messages ?st' ! 0) = 1"
    using same by (simp_all add: sample_three sample_message_def)
  moreover have "msg_is_summarized (messages ?st' ! 0) = 1"
    by (subst sample_three_marked) simp
  moreover from thm2 marked have "markSummarized [1, 2] ?st' = ?st'" by blast
  ultimately show ?thesis using ext k by blast
qed

section \<open>The short-term window\<close>

lemma sorted_negated_rev:
  fixes f :: "'a \<Rightarrow> int"
  assumes "sorted (map (\<lambda>x. - f x) xs)"
  shows "sorted (map f (rev xs))"
proof -
  from assms have "sorted_wrt (\<lambda>x y. f y \<le> f x) xs"
    by (simp add: sorted_map)
  then have "sorted_wrt (\<lambda>x y. f x \<le> f y) (rev xs)"
    by (simp add: sorted_wrt_rev)
  then show ?thesis by (simp add: sorted_map)
qed

lemma filter_same_key:
  assumes "distinct (map f xs)" and "k \<in> set xs"
  shows "filter (\<lambda>x. f k = f x) xs = [k]"
  using assms
proof (induction xs)
  case Nil
  then show ?case by simp
next
  case (Cons x xs)
  show ?case
  proof (cases "k = x")
    case True
    with Cons.prems have "\<forall>y\<in>set xs. f k \<noteq> f y" by auto
    then have "filter (\<lambda>x. f k = f x) xs = []" by (simp add: filter_empty_conv)
    with True show ?thesis by simp
  next
    case False
    with Cons.prems have k: "k \<in> set xs" by simp
    from Cons.prems have "f x \<notin> f ` set xs" by simp
    with k have "f k \<noteq> f x" by (metis imageI)
    with k Cons show ?thesis by simp
  qed
qed

lemma sort_descending_of_increasing:
  fixes f :: "'a \<Rightarrow> int"
  assumes "sorted_wrt (<) (map f xs)"
  shows "sort_key (\<lambda>x. - f x) xs = rev xs"
proof (rule properties_for_sort_key)
  show "mset (rev xs) = mset xs" by simp
  from assms have "sorted_wrt (\<lambda>x y. f x \<le> f y) xs"
    by (simp add: sorted_wrt_map) (erule sorted_wrt_mono_rel [rotated], simp)
  then have "sorted_wrt (\<lambda>x y. - f x \<le> - f y) (rev xs)"
    by (simp add: sorted_wrt_rev)
  then show "sorted (map (\<lambda>x. - f x) (rev xs))" by (simp add: sorted_map)
  from assms have d: "distinct (map (\<lambda>x. - f x) xs)"
  proof -
    from assms have "distinct (map f xs)" by (simp add: strict_sorted_iff)
    then show ?thesis by (simp add: distinct_map inj_on_def)
  qed
  then have d': "distinct (map (\<lambda>x. - f x) (rev xs))" by (simp add: rev_map [symmetric])
  fix k assume k: "k \<in> set (rev xs)"
  then have "filter (\<lambda>x. - f k = - f x) (rev xs) = [k]"
    using filter_same_key [OF d'] by simp
  moreover from k have "filter (\<lambda>x. - f k = - f x) xs = [k]"
    using filter_same_key [OF d] by simp
  ultimately show "filter (\<lambda>x. - f k = - f x) (rev xs) = filter (\<lambda>x. - f k = - f x) xs"
    by simp
qed

lemma recentRows_sorted: "sorted (map msg_timestamp (rev (recentRows st sid n)))"
proof -
  have "sorted (map (\<lambda>m. - msg_timestamp m)
      (sort_key (\<lambda>m. - msg_timestamp m) (filter (unsummarized_of sid) (messages st))))"
    by (rule sorted_sort_key)
  then have "sorted (map (\<lambda>m. - msg_timestamp m) (recentRows st sid n))"
    by (simp add: recentRows_def sorted_map)
  then show ?thesis by (rule sorted_negated_rev)
qed

lemma recentRows_subset:
  "set (recentRows st sid n) \<subseteq> {m \<in> set (messages st). unsummarized_of sid m}"
proof -
  have "set (recentRows st sid n) \<subseteq>
      set (sort_key (\<lambda>m. - msg_timestamp m) (filter (unsummarized_of sid) (messages st)))"
    unfolding recentRows_def by (rule set_take_subset)
  then show ?thesis by auto
qed

lemma getRecentHistory_rows:
  "getRecentHistory st sid n = map row_of (rev (recentRows st sid n))"
  by (simp add: getRecentHistory_def selectRecent_def rev_map)

lemma recentRows_most_recent:
  "\<exists>rest. mset (filter (unsummarized_of sid) (messages st)) = mset (recentRows st sid n @ rest) \<and>
     (\<forall>m\<in>set rest. \<forall>r\<in>set (recentRows st sid n). msg_timestamp m \<le> msg_timestamp r)"
proof -
  let ?S = "sort_key (\<lambda>m. - msg_timestamp m) (filter (unsummarized_of sid) (messages st))"
  have "sorted (map (\<lambda>m. - msg_timestamp m) (take n ?S @ drop n ?S))"
    by (simp only: append_take_drop_id sorted_sort_key)
  then have order: "\<forall>r\<in>set (take n ?S). \<forall>m\<in>set (drop n ?S). msg_timestamp m \<le> msg_timestamp r"
    by (simp only: map_append sorted_append) auto
  have "mset (filter (unsummarized_of sid) (messages st)) = mset (take n ?S @ drop n ?S)"
    by (simp only: append_take_drop_id mset_sort)
  with order show ?thesis
    unfolding recentRows_def by blast
qed

lemma recentRows_increasing:
  assumes "sorted_wrt (<) (map msg_timestamp (filter (unsummarized_of sid) (messages st)))"
  shows "rev (recentRows st sid n) =
     drop (length (filter (unsummarized_of sid) (messages st)) - n)
       (filter (unsummarized_of sid) (messages st))"
  by (simp add: recentRows_def sort_descending_of_increasing [OF assms] rev_take)

lemma unsummarized_filter:
  "filter (unsummarized_of sid) ms =
     filter (\<lambda>m. msg_session_id m = sid \<and> msg_is_summarized m = 0) ms"
  by (rule filter_cong) (simp_all add: unsummarized_of_def)

lemma getRecentHistory_explicit:
  "getRecentHistory st sid n =
     map (\<lambda>m. \<lparr>role = msg_role m, content = msg_content m\<rparr>)
       (rev (take n (sort_key (\<lambda>m. - msg_timestamp m)
          (filter (\<lambda>m. msg_session_id m = sid \<and> msg_is_summarized m = 0) (messages st)))))"
  by (simp add: getRecentHistory_def selectRecent_def recentRows_def row_of_def rev_map
      unsummarized_filter)

text \<open>
  C6. With \<open>Q\<close> the session's unsummarized messages in stored order, \<open>S\<close> their ranking
  by descending timestamp (a permutation of \<open>Q\<close>, descending, messages of equal timestamp
  in stored order) and \<open>R\<close> the first \<open>n\<close> of \<open>S\<close> reversed, \<open>getRecentHistory\<close>
  returns, row by row, the role and the content of the messages of \<open>R\<close>. \<open>R\<close> is in
  chronological order; it has \<open>n\<close> messages, or all when fewer qualify; and no
  qualifying message left out is more recent than one returned. When the qualifying
  messages are stored with increasing timestamps, \<open>R\<close> is their last \<open>n\<close> in stored
  order: with timestamps 1 to 5 and \<open>n = 4\<close>, those at 2, 3, 4 and 5. Among messages of
  equal timestamp the earliest stored are kept first and come out in reverse stored order.
\<close>

theorem recent_history:
  "let Q = filter (\<lambda>m. msg_session_id m = sid \<and> msg_is_summarized m = 0) (messages st);
       S = sort_key (\<lambda>m. - msg_timestamp m) Q;
       R = rev (take n S)
   in getRecentHistory st sid n =
        map (\<lambda>m. \<lparr>role = msg_role m, content = msg_content m\<rparr>) R \<and>
      map role (getRecentHistory st sid n) = map msg_role R \<and>
      map content (getRecentHistory st sid n) = map msg_content R \<and>
      mset S = mset Q \<and>
      sorted (map (\<lambda>m. - msg_timestamp m) S) \<and>
      (\<forall>t. filter (\<lambda>m. msg_timestamp m = t) S = filter (\<lambda>m. msg_timestamp m = t) Q) \<and>
      sorted (map msg_timestamp R) \<and>
      length R = min n (length Q) \<and>
      (\<forall>m\<in>set (drop n S). \<forall>r\<in>set R. msg_timestamp m \<le> msg_timestamp r) \<and>
      (sorted_wrt (<) (map msg_timestamp Q) \<longrightarrow> R = drop (length Q - n) Q)"
proof -
  let ?Q = "filter (\<lambda>m. msg_session_id m = sid \<and> msg_is_summarized m = 0) (messages st)"
  let ?S = "sort_key (\<lambda>m. - msg_timestamp m) ?Q"
  let ?R = "rev (take n ?S)"
  have rows: "getRecentHistory st sid n =
      map (\<lambda>m. \<lparr>role = msg_role m, content = msg_content m\<rparr>) ?R"
    by (rule getRecentHistory_explicit)
  have roles: "map role (getRecentHistory st sid n) = map msg_role ?R"
    by (simp add: rows o_def)
  have contents: "map content (getRecentHistory st sid n) = map msg_content ?R"
    by (simp add: rows o_def)
  have perm: "mset ?S = mset ?Q" by simp
  have desc: "sorted (map (\<lambda>m. - msg_timestamp m) ?S)" by (rule sorted_sort_key)
  have stable: "\<forall>t. filter (\<lambda>m. msg_timestamp m = t) ?S = filter (\<lambda>m. msg_timestamp m = t) ?Q"
  proof
    fix t
    have "filter (\<lambda>m. - msg_timestamp m = - t) ?S = filter (\<lambda>m. - msg_timestamp m = - t) ?Q"
      by (rule sort_key_stable)
    then show "filter (\<lambda>m. msg_timestamp m = t) ?S = filter (\<lambda>m. msg_timestamp m = t) ?Q"
      by simp
  qed
  have rec: "recentRows st sid n = take n ?S"
    by (simp add: recentRows_def unsummarized_filter)
  have chron: "sorted (map msg_timestamp ?R)"
    using recentRows_sorted [of st sid n] by (simp only: rec)
  have len: "length ?R = min n (length ?Q)" by (simp add: min_def)
  have "sorted (map (\<lambda>m. - msg_timestamp m) (take n ?S @ drop n ?S))"
    by (simp only: append_take_drop_id sorted_sort_key)
  then have recent: "\<forall>m\<in>set (drop n ?S). \<forall>r\<in>set ?R. msg_timestamp m \<le> msg_timestamp r"
    by (simp only: map_append sorted_append set_rev) auto
  have inc: "sorted_wrt (<) (map msg_timestamp ?Q) \<longrightarrow> ?R = drop (length ?Q - n) ?Q"
  proof
    assume "sorted_wrt (<) (map msg_timestamp ?Q)"
    then have "sorted_wrt (<) (map msg_timestamp (filter (unsummarized_of sid) (messages st)))"
      by (simp only: unsummarized_filter)
    from recentRows_increasing [OF this, of n]
    show "?R = drop (length ?Q - n) ?Q"
      by (simp only: rec unsummarized_filter)
  qed
  from rows roles contents perm desc stable chron len recent inc
  show ?thesis unfolding Let_def by (intro conjI)
qed

theorem recent_history_witness:
  "map msg_timestamp
     (filter (\<lambda>m. msg_session_id m = S1 \<and> msg_is_summarized m = 0) (messages recent_state)) =
     [1, 2, 3, 4, 5] \<and>
   getRecentHistory recent_state S1 4 =
     [\<lparr>role = Assistant, content = [0x62]\<rparr>, \<lparr>role = User, content = [0x63]\<rparr>,
      \<lparr>role = Assistant, content = [0x64]\<rparr>, \<lparr>role = User, content = [0x65]\<rparr>] \<and>
   getRecentHistory tie_state S1 2 =
     [\<lparr>role = User, content = [0x61]\<rparr>, \<lparr>role = User, content = [0x63]\<rparr>] \<and>
   getRecentHistory tie_state S1 3 =
     [\<lparr>role = Assistant, content = [0x62]\<rparr>, \<lparr>role = User, content = [0x61]\<rparr>,
      \<lparr>role = User, content = [0x63]\<rparr>]"
proof -
  let ?Q = "filter (\<lambda>m. msg_session_id m = S1 \<and> msg_is_summarized m = 0)
      (messages recent_state)"
  have Q: "?Q = [timed_message 1 User 0x61 1 0, timed_message 2 Assistant 0x62 2 0,
         timed_message 3 User 0x63 3 0, timed_message 4 Assistant 0x64 4 0,
         timed_message 5 User 0x65 5 0]"
    by (simp add: recent_state_def timed_message_def)
  have ts: "map msg_timestamp ?Q = [1, 2, 3, 4, 5]"
    by (simp only: Q) (simp add: timed_message_def)
  then have inc: "sorted_wrt (<) (map msg_timestamp ?Q)" by simp
  note inst = recent_history [where st = recent_state and sid = S1 and n = 4,
      unfolded Let_def]
  from inst have rows: "getRecentHistory recent_state S1 4 =
      map (\<lambda>m. \<lparr>role = msg_role m, content = msg_content m\<rparr>)
        (rev (take 4 (sort_key (\<lambda>m. - msg_timestamp m) ?Q)))"
    by (rule conjunct1)
  from inst inc have "rev (take 4 (sort_key (\<lambda>m. - msg_timestamp m) ?Q)) =
      drop (length ?Q - 4) ?Q"
    by blast
  with rows have "getRecentHistory recent_state S1 4 =
      map (\<lambda>m. \<lparr>role = msg_role m, content = msg_content m\<rparr>) (drop (length ?Q - 4) ?Q)"
    by simp
  then have first: "getRecentHistory recent_state S1 4 =
     [\<lparr>role = Assistant, content = [0x62]\<rparr>, \<lparr>role = User, content = [0x63]\<rparr>,
      \<lparr>role = Assistant, content = [0x64]\<rparr>, \<lparr>role = User, content = [0x65]\<rparr>]"
    by (simp only: Q) (simp add: timed_message_def)
  have tieQ: "filter (\<lambda>m. msg_session_id m = S1 \<and> msg_is_summarized m = 0)
      (messages tie_state) =
      [timed_message 1 User 0x61 1 0, timed_message 2 Assistant 0x62 1 0,
       timed_message 3 User 0x63 2 0]"
    by (simp add: tie_state_def timed_message_def)
  from recent_history [where st = tie_state and sid = S1 and n = 2, unfolded Let_def]
  have "getRecentHistory tie_state S1 2 =
      map (\<lambda>m. \<lparr>role = msg_role m, content = msg_content m\<rparr>)
        (rev (take 2 (sort_key (\<lambda>m. - msg_timestamp m)
          (filter (\<lambda>m. msg_session_id m = S1 \<and> msg_is_summarized m = 0)
            (messages tie_state)))))"
    by (rule conjunct1)
  then have second: "getRecentHistory tie_state S1 2 =
     [\<lparr>role = User, content = [0x61]\<rparr>, \<lparr>role = User, content = [0x63]\<rparr>]"
    by (simp only: tieQ) (simp add: timed_message_def)
  from recent_history [where st = tie_state and sid = S1 and n = 3, unfolded Let_def]
  have "getRecentHistory tie_state S1 3 =
      map (\<lambda>m. \<lparr>role = msg_role m, content = msg_content m\<rparr>)
        (rev (take 3 (sort_key (\<lambda>m. - msg_timestamp m)
          (filter (\<lambda>m. msg_session_id m = S1 \<and> msg_is_summarized m = 0)
            (messages tie_state)))))"
    by (rule conjunct1)
  then have third: "getRecentHistory tie_state S1 3 =
     [\<lparr>role = Assistant, content = [0x62]\<rparr>, \<lparr>role = User, content = [0x61]\<rparr>,
      \<lparr>role = User, content = [0x63]\<rparr>]"
    by (simp only: tieQ) (simp add: timed_message_def)
  from ts first second third show ?thesis by blast
qed

lemma sample_five:
  "map sample_message [0..<5] =
     [sample_message 0, sample_message 1, sample_message 2, sample_message 3, sample_message 4]"
  by (simp add: upt_conv_Cons numeral_2_eq_2 numeral_3_eq_3 eval_nat_numeral)

section \<open>Summarized messages leave the short-term window\<close>

lemma map_id_mark_first: "map msg_id (mark_first i ms) = map msg_id ms"
  by (induction ms) simp_all

lemma map_id_fold_mark: "map msg_id (fold mark_first ids ms) = map msg_id ms"
  by (induction ids arbitrary: ms) (simp_all add: map_id_mark_first)

lemma mark_first_distinct:
  assumes "distinct (map msg_id ms)"
  shows "mark_first i ms = map (\<lambda>m. if msg_id m = i then m\<lparr>msg_is_summarized := 1\<rparr> else m) ms"
  using assms
proof (induction ms)
  case Nil
  then show ?case by simp
next
  case (Cons m ms)
  show ?case
  proof (cases "msg_id m = i")
    case True
    from Cons.prems have "msg_id m \<notin> msg_id ` set ms" by simp
    with True have "\<forall>x\<in>set ms. msg_id x \<noteq> i" by (metis imageI)
    then have "map (\<lambda>m. if msg_id m = i then m\<lparr>msg_is_summarized := 1\<rparr> else m) ms = ms"
      by (simp add: map_idI)
    with True show ?thesis by simp
  next
    case False
    with Cons show ?thesis by simp
  qed
qed

lemma fold_mark_first_distinct:
  assumes "distinct (map msg_id ms)"
  shows "fold mark_first ids ms =
     map (\<lambda>m. if msg_id m \<in> set ids then m\<lparr>msg_is_summarized := 1\<rparr> else m) ms"
  using assms
proof (induction ids arbitrary: ms)
  case Nil
  then show ?case by simp
next
  case (Cons i ids)
  from Cons.prems have d: "distinct (map msg_id (mark_first i ms))"
    by (simp add: map_id_mark_first)
  have "fold mark_first (i # ids) ms = fold mark_first ids (mark_first i ms)" by simp
  also have "\<dots> = map (\<lambda>m. if msg_id m \<in> set ids then m\<lparr>msg_is_summarized := 1\<rparr> else m)
      (mark_first i ms)"
    by (rule Cons.IH [OF d])
  also have "\<dots> = map (\<lambda>m. if msg_id m \<in> set (i # ids) then m\<lparr>msg_is_summarized := 1\<rparr> else m) ms"
    by (simp add: mark_first_distinct [OF Cons.prems])
  finally show ?case .
qed

lemma summarized_after_success:
  assumes d: "distinct (map msg_id (messages st))"
    and big: "5 \<le> getMessageCount st sid"
    and ok: "api_result (api_summary env) = Inr summary"
  shows "filter (unsummarized_of sid) (messages (generateSummary env sid st)) = []"
proof -
  let ?ids = "map msg_id (selectUnsummarized st sid)"
  from big have len: "5 \<le> length (selectUnsummarized st sid)"
    by (simp add: length_selectUnsummarized)
  let ?g = "\<lambda>m. if msg_id m \<in> set ?ids then m\<lparr>msg_is_summarized := 1\<rparr> else m"
  have msgs: "messages (generateSummary env sid st) = map ?g (messages st)"
    by (simp add: generateSummary_success [OF len ok] markSummarized_fields insertMemory_fields
        fold_mark_first_distinct [OF d])
  have "\<not> unsummarized_of sid (?g m)" if "m \<in> set (messages st)" for m
  proof (cases "unsummarized_of sid m")
    case True
    with that have "m \<in> set (selectUnsummarized st sid)"
      by (simp add: selectUnsummarized_def)
    then have "msg_id m \<in> set ?ids" by simp
    then show ?thesis by (simp add: unsummarized_of_def)
  next
    case False
    then show ?thesis by (simp add: unsummarized_of_def)
  qed
  then have "\<forall>x\<in>set (map ?g (messages st)). \<not> unsummarized_of sid x"
    by (simp only: set_map) blast
  then show ?thesis by (simp only: msgs filter_empty_conv)
qed

lemma ids_fresh_init: "ids_fresh init_state"
  by (simp add: ids_fresh_def init_state_def)

lemma ids_fresh_saveMessage:
  assumes "ids_fresh st"
  shows "ids_fresh (saveMessage now answer sid r c st)"
proof -
  from assms have "\<forall>m\<in>set (messages st). msg_id m < messageIdCounter st"
    by (simp add: ids_fresh_def list_all_iff)
  moreover from this have "messageIdCounter st \<notin> msg_id ` set (messages st)" by auto
  ultimately show ?thesis using assms
    by (auto simp add: ids_fresh_def list_all_iff saveMessage_fields stored_message_sel)
qed

lemma ids_fresh_generateSummary:
  assumes "ids_fresh st"
  shows "ids_fresh (generateSummary env sid st)"
proof (cases "length (selectUnsummarized st sid) < 5")
  case True
  with assms show ?thesis by (simp add: generateSummary_skip)
next
  case False
  then have big: "5 \<le> length (selectUnsummarized st sid)" by simp
  show ?thesis
  proof (cases "api_result (api_summary env)")
    case (Inl err)
    with assms show ?thesis by (simp add: generateSummary_failure_state ids_fresh_def)
  next
    case (Inr summary)
    let ?ms = "fold mark_first (map msg_id (selectUnsummarized st sid)) (messages st)"
    have ids: "map msg_id ?ms = map msg_id (messages st)" by (rule map_id_fold_mark)
    from assms have below: "\<forall>i\<in>set (map msg_id (messages st)). i < messageIdCounter st"
      by (simp add: ids_fresh_def list_all_iff)
    then have "\<forall>i\<in>set (map msg_id ?ms). i < messageIdCounter st"
      by (simp only: ids)
    then have "\<forall>m\<in>set ?ms. msg_id m < messageIdCounter st" by simp
    moreover from assms have "distinct (map msg_id ?ms)"
      by (simp only: ids) (simp add: ids_fresh_def)
    ultimately show ?thesis
      by (simp add: generateSummary_success [OF big Inr] markSummarized_fields
          insertMemory_fields ids_fresh_def list_all_iff)
  qed
qed

lemma ids_fresh_chat:
  assumes "ids_fresh st"
  shows "ids_fresh (snd (chat env message sid st))"
proof -
  let ?st2 = "saveMessage (now_user env) (emb_user env) sid User message
      (ensureSession (now_session env) sid st)"
  from assms have "ids_fresh (ensureSession (now_session env) sid st)"
    by (simp add: ids_fresh_def ensureSession_fields)
  then have s2: "ids_fresh ?st2" by (rule ids_fresh_saveMessage)
  then have s3: "ids_fresh (snd (chat_triggered env message sid st))"
    by (simp add: chat_triggered_unfold ids_fresh_generateSummary)
  show ?thesis
  proof (cases "api_result (api_chat env)")
    case (Inl err)
    then have "messages (snd (chat env message sid st)) =
        messages (snd (chat_triggered env message sid st))"
      "messageIdCounter (snd (chat env message sid st)) =
        messageIdCounter (snd (chat_triggered env message sid st))"
      by (simp_all add: chat_def callAPI_def Let_def split: prod.splits)
    with s3 show ?thesis by (simp add: ids_fresh_def)
  next
    case (Inr reply)
    from s3 have "ids_fresh ((snd (chat_triggered env message sid st))
           \<lparr>completions := completions (snd (chat_triggered env message sid st)) @
              [buildContext (snd (chat_triggered env message sid st)) sid]\<rparr>)"
      by (simp add: ids_fresh_def)
    then show ?thesis
      by (simp only: chat_reply_state [OF Inr] ids_fresh_saveMessage)
  qed
qed

lemma ids_fresh_chats:
  assumes "ids_fresh st"
  shows "ids_fresh (chats turns st)"
  using assms
proof (induction turns arbitrary: st)
  case Nil
  then show ?case by simp
next
  case (Cons turn turns)
  obtain env message sid where turn: "turn = (env, message, sid)"
    by (cases turn) auto
  from Cons.prems have "ids_fresh (snd (chat env message sid st))"
    by (rule ids_fresh_chat)
  then have "ids_fresh (chats turns (snd (chat env message sid st)))"
    by (rule Cons.IH)
  then show ?case by (simp add: turn)
qed

lemma buildContext_window:
  "\<exists>sys. buildContext st sid =
           sys @ map row_of (rev (recentRows st sid (MAX_SHORT_TERM_ROUNDS * 2))) \<and>
         list_all (\<lambda>c. role c = System) sys"
proof -
  have same: "map (\<lambda>msg. \<lparr>role = role msg, content = content msg\<rparr>) xs = xs"
    for xs :: "chat_message list"
    by (induction xs) simp_all
  show ?thesis
  proof (cases "length (getLongTermMemory st sid) > 0")
    case True
    then have "buildContext st sid =
        [\<lparr>role = System, content = PERSONA_PROMPT\<rparr>,
         \<lparr>role = System, content = SUMMARY_HEADING @ join BLANK_LINE (getLongTermMemory st sid)\<rparr>] @
        map row_of (rev (recentRows st sid (MAX_SHORT_TERM_ROUNDS * 2)))"
      by (simp add: buildContext_def Let_def same getRecentHistory_rows)
    then show ?thesis
      by (intro exI [of _ "[\<lparr>role = System, content = PERSONA_PROMPT\<rparr>,
         \<lparr>role = System, content = SUMMARY_HEADING @ join BLANK_LINE (getLongTermMemory st sid)\<rparr>]"])
        simp
  next
    case False
    then have "buildContext st sid = [\<lparr>role = System, content = PERSONA_PROMPT\<rparr>] @
        map row_of (rev (recentRows st sid (MAX_SHORT_TERM_ROUNDS * 2)))"
      by (simp add: buildContext_def Let_def same getRecentHistory_rows)
    then show ?thesis
      by (intro exI [of _ "[\<lparr>role = System, content = PERSONA_PROMPT\<rparr>]"]) simp
  qed
qed

text \<open>
  C10. Every row that \<open>getRecentHistory\<close> returns is the role and content of a message of
  the session whose flag is 0, whatever the limit and however recent the summarized
  messages are; the assembled context is system messages followed by exactly these rows.
  When no message of the session has the flag 0 the window is empty. After a
  summarization pass that succeeds on a store with pairwise different message ids (as in
  every state reached from the empty store by chat turns) the session has no unsummarized
  message and the window is empty.
\<close>

theorem window_holds_unsummarized_only:
  "set (recentRows st sid n) \<subseteq>
     {m \<in> set (messages st). msg_session_id m = sid \<and> msg_is_summarized m = 0} \<and>
   getRecentHistory st sid n = map row_of (rev (recentRows st sid n)) \<and>
   (\<exists>sys. buildContext st sid =
            sys @ map row_of (rev (recentRows st sid (MAX_SHORT_TERM_ROUNDS * 2))) \<and>
          list_all (\<lambda>c. role c = System) sys) \<and>
   ((\<forall>m\<in>set (messages st). msg_session_id m = sid \<longrightarrow> msg_is_summarized m \<noteq> 0) \<longrightarrow>
      getRecentHistory st sid n = []) \<and>
   (distinct (map msg_id (messages st)) \<and> 5 \<le> getMessageCount st sid \<and>
    api_result (api_summary env) = Inr summary \<longrightarrow>
      getMessageCount (generateSummary env sid st) sid = 0 \<and>
      getRecentHistory (generateSummary env sid st) sid n = []) \<and>
   distinct (map msg_id (messages (chats turns init_state)))"
proof -
  have sub: "set (recentRows st sid n) \<subseteq>
     {m \<in> set (messages st). msg_session_id m = sid \<and> msg_is_summarized m = 0}"
    using recentRows_subset [of st sid n] by (simp add: unsummarized_of_def)
  have none: "(\<forall>m\<in>set (messages st). msg_session_id m = sid \<longrightarrow> msg_is_summarized m \<noteq> 0) \<longrightarrow>
      getRecentHistory st sid n = []"
  proof
    assume "\<forall>m\<in>set (messages st). msg_session_id m = sid \<longrightarrow> msg_is_summarized m \<noteq> 0"
    then have "filter (unsummarized_of sid) (messages st) = []"
      by (simp add: filter_empty_conv unsummarized_of_def)
    then show "getRecentHistory st sid n = []"
      by (simp add: getRecentHistory_rows recentRows_def)
  qed
  have pass: "distinct (map msg_id (messages st)) \<and> 5 \<le> getMessageCount st sid \<and>
    api_result (api_summary env) = Inr summary \<longrightarrow>
      getMessageCount (generateSummary env sid st) sid = 0 \<and>
      getRecentHistory (generateSummary env sid st) sid n = []"
  proof (intro impI, elim conjE)
    assume "distinct (map msg_id (messages st))" "5 \<le> getMessageCount st sid"
      "api_result (api_summary env) = Inr summary"
    then have "filter (unsummarized_of sid) (messages (generateSummary env sid st)) = []"
      by (rule summarized_after_success)
    then show "getMessageCount (generateSummary env sid st) sid = 0 \<and>
      getRecentHistory (generateSummary env sid st) sid n = []"
      by (simp add: getMessageCount_def countUnsummarized_def getRecentHistory_rows
          recentRows_def)
  qed
  have reach: "distinct (map msg_id (messages (chats turns init_state)))"
    using ids_fresh_chats [OF ids_fresh_init, of turns] by (simp add: ids_fresh_def)
  from sub getRecentHistory_rows [of st sid n] buildContext_window [of st sid] none pass reach
  show ?thesis by (intro conjI)
qed

lemma sample_two_marked:
  "messages (markSummarized [1, 2] (sample_state 2)) =
     [(sample_message 0)\<lparr>msg_is_summarized := 1\<rparr>,
      (sample_message 1)\<lparr>msg_is_summarized := 1\<rparr>]"
  by (simp add: markSummarized_fields sample_state_def upt_conv_Cons numeral_2_eq_2)
    (simp add: sample_message_def)

theorem window_witness:
  "distinct (map msg_id (messages (sample_state 5))) \<and>
   5 \<le> getMessageCount (sample_state 5) S1 \<and>
   api_result (api_summary (sample_env (Reply HI) (Reply HI))) = Inr HI \<and>
   getMessageCount (generateSummary (sample_env (Reply HI) (Reply HI)) S1 (sample_state 5)) S1 = 0 \<and>
   getRecentHistory (generateSummary (sample_env (Reply HI) (Reply HI)) S1 (sample_state 5)) S1 12
     = [] \<and>
   getRecentHistory (markSummarized [1, 2] (sample_state 2)) S1 12 = []"
proof -
  let ?env = "sample_env (Reply HI) (Reply HI)"
  have d: "distinct (map msg_id (messages (sample_state 5)))"
    by (simp add: sample_state_def sample_five) (simp add: sample_message_def)
  have c: "5 \<le> getMessageCount (sample_state 5) S1" by (simp add: sample_count)
  have ok: "api_result (api_summary ?env) = Inr HI"
    by (simp add: sample_env_def api_result_def)
  note inst = window_holds_unsummarized_only
    [where st = "sample_state 5" and sid = S1 and env = ?env and summary = HI and n = 12]
  from inst d c ok
  have a: "getMessageCount (generateSummary ?env S1 (sample_state 5)) S1 = 0 \<and>
      getRecentHistory (generateSummary ?env S1 (sample_state 5)) S1 12 = []"
    by blast
  note inst2 = window_holds_unsummarized_only
    [where st = "markSummarized [1, 2] (sample_state 2)" and sid = S1 and n = 12]
  have "\<forall>m\<in>set (messages (markSummarized [1, 2] (sample_state 2))).
      msg_session_id m = S1 \<longrightarrow> msg_is_summarized m \<noteq> 0"
    by (subst sample_two_marked) simp
  with inst2 have b: "getRecentHistory (markSummarized [1, 2] (sample_state 2)) S1 12 = []"
    by blast
  from d c ok a b show ?thesis by blast
qed

section \<open>Context assembly\<close>

lemma join_concat: "join sep (x # xs) = x @ concat (map (\<lambda>y. sep @ y) xs)"
  by (induction xs arbitrary: x) simp_all

lemma ranking_facts:
  fixes Q :: "message list"
  defines "S \<equiv> sort_key (\<lambda>m. - msg_timestamp m) Q"
  shows "sorted (map msg_timestamp (rev (take n S)))"
    and "length (rev (take n S)) = min n (length Q)"
    and "\<forall>m\<in>set (drop n S). \<forall>r\<in>set (rev (take n S)). msg_timestamp m \<le> msg_timestamp r"
    and "\<forall>t. filter (\<lambda>m. msg_timestamp m = t) S = filter (\<lambda>m. msg_timestamp m = t) Q"
proof -
  have desc: "sorted (map (\<lambda>m. - msg_timestamp m) S)"
    unfolding S_def by (rule sorted_sort_key)
  then have "sorted (map (\<lambda>m. - msg_timestamp m) (take n S))"
    by (simp add: sorted_map)
  then show "sorted (map msg_timestamp (rev (take n S)))"
    by (rule sorted_negated_rev)
  show "length (rev (take n S)) = min n (length Q)"
    by (simp add: S_def min_def)
  from desc have "sorted (map (\<lambda>m. - msg_timestamp m) (take n S @ drop n S))"
    by (simp only: append_take_drop_id)
  then show "\<forall>m\<in>set (drop n S). \<forall>r\<in>set (rev (take n S)). msg_timestamp m \<le> msg_timestamp r"
    by (simp only: map_append sorted_append set_rev) auto
  show "\<forall>t. filter (\<lambda>m. msg_timestamp m = t) S = filter (\<lambda>m. msg_timestamp m = t) Q"
  proof
    fix t
    have "filter (\<lambda>m. - msg_timestamp m = - t) S = filter (\<lambda>m. - msg_timestamp m = - t) Q"
      unfolding S_def by (rule sort_key_stable)
    then show "filter (\<lambda>m. msg_timestamp m = t) S = filter (\<lambda>m. msg_timestamp m = t) Q"
      by simp
  qed
qed

text \<open>
  C5. The assembled context is the fixed system instruction; then, exactly when the
  session has a stored summary, one system message whose content is the heading followed
  by the session's summaries in ascending order of creation time (summaries of equal
  time in stored order), the first as it is and each later one after a blank line; then,
  row by row, the role and content of the short-term window; and nothing else. The window
  is the first 12 (\<open>MAX_SHORT_TERM_ROUNDS * 2\<close>) of the session's unsummarized messages
  ranked by descending timestamp, reversed: at most 12 messages in chronological order,
  none of the messages left out more recent than one of them.
\<close>

theorem context_assembly:
  "let stored = filter (\<lambda>m. mem_session_id m = sid) (memories st);
       ordered = sort_key mem_created_at stored;
       Q = filter (\<lambda>m. msg_session_id m = sid \<and> msg_is_summarized m = 0) (messages st);
       S = sort_key (\<lambda>m. - msg_timestamp m) Q;
       R = rev (take 12 S)
   in buildContext st sid =
        \<lparr>role = System, content = PERSONA_PROMPT\<rparr> #
        (case ordered of
           [] \<Rightarrow> []
         | s # later \<Rightarrow>
             [\<lparr>role = System,
               content = SUMMARY_HEADING @ mem_summary s @
                 concat (map (\<lambda>m. [0xA, 0xA] @ mem_summary m) later)\<rparr>]) @
        map (\<lambda>m. \<lparr>role = msg_role m, content = msg_content m\<rparr>) R \<and>
      (ordered = []) = (stored = []) \<and>
      mset ordered = mset stored \<and>
      sorted (map mem_created_at ordered) \<and>
      (\<forall>t. filter (\<lambda>m. mem_created_at m = t) ordered =
           filter (\<lambda>m. mem_created_at m = t) stored) \<and>
      mset S = mset Q \<and>
      sorted (map (\<lambda>m. - msg_timestamp m) S) \<and>
      (\<forall>t. filter (\<lambda>m. msg_timestamp m = t) S = filter (\<lambda>m. msg_timestamp m = t) Q) \<and>
      sorted (map msg_timestamp R) \<and>
      length R = min 12 (length Q) \<and>
      (\<forall>m\<in>set (drop 12 S). \<forall>r\<in>set R. msg_timestamp m \<le> msg_timestamp r) \<and>
      MAX_SHORT_TERM_ROUNDS * 2 = 12"
proof -
  let ?stored = "filter (\<lambda>m. mem_session_id m = sid) (memories st)"
  let ?ordered = "sort_key mem_created_at ?stored"
  let ?Q = "filter (\<lambda>m. msg_session_id m = sid \<and> msg_is_summarized m = 0) (messages st)"
  let ?S = "sort_key (\<lambda>m. - msg_timestamp m) ?Q"
  let ?R = "rev (take 12 ?S)"
  have twelve: "MAX_SHORT_TERM_ROUNDS * 2 = 12" by (simp add: MAX_SHORT_TERM_ROUNDS_def)
  have same: "map (\<lambda>msg. \<lparr>role = role msg, content = content msg\<rparr>) xs = xs"
    for xs :: "chat_message list"
    by (induction xs) simp_all
  have window: "getRecentHistory st sid (MAX_SHORT_TERM_ROUNDS * 2) =
      map (\<lambda>m. \<lparr>role = msg_role m, content = msg_content m\<rparr>) ?R"
    by (simp only: twelve getRecentHistory_explicit)
  have long: "getLongTermMemory st sid = map mem_summary ?ordered"
    by (simp add: getLongTermMemory_def selectSummaries_def)
  have summary: "(if length (map mem_summary ?ordered) > 0
        then [\<lparr>role = System,
                content = SUMMARY_HEADING @ join BLANK_LINE (map mem_summary ?ordered)\<rparr>]
        else []) =
      (case ?ordered of
         [] \<Rightarrow> []
       | s # later \<Rightarrow>
           [\<lparr>role = System,
             content = SUMMARY_HEADING @ mem_summary s @
               concat (map (\<lambda>m. [0xA, 0xA] @ mem_summary m) later)\<rparr>])"
    by (cases ?ordered) (simp_all add: join_concat BLANK_LINE_def o_def)
  have ctx: "buildContext st sid =
        \<lparr>role = System, content = PERSONA_PROMPT\<rparr> #
        (case ?ordered of
           [] \<Rightarrow> []
         | s # later \<Rightarrow>
             [\<lparr>role = System,
               content = SUMMARY_HEADING @ mem_summary s @
                 concat (map (\<lambda>m. [0xA, 0xA] @ mem_summary m) later)\<rparr>]) @
        map (\<lambda>m. \<lparr>role = msg_role m, content = msg_content m\<rparr>) ?R"
    unfolding buildContext_def Let_def same window long summary by simp
  have "length ?ordered = length ?stored" by simp
  then have e: "(?ordered = []) = (?stored = [])"
    by (simp only: length_0_conv [symmetric])
  have p: "mset ?ordered = mset ?stored" by simp
  have o: "sorted (map mem_created_at ?ordered)" by (rule sorted_sort_key)
  have st: "\<forall>t. filter (\<lambda>m. mem_created_at m = t) ?ordered =
           filter (\<lambda>m. mem_created_at m = t) ?stored"
    by (simp add: sort_key_stable)
  have p2: "mset ?S = mset ?Q" by simp
  have o2: "sorted (map (\<lambda>m. - msg_timestamp m) ?S)" by (rule sorted_sort_key)
  from ctx e p o st p2 o2 ranking_facts(4) [of ?Q] ranking_facts(1) [of 12 ?Q]
    ranking_facts(2) [of 12 ?Q] ranking_facts(3) [of 12 ?Q] twelve
  show ?thesis unfolding Let_def by (intro conjI)
qed

theorem context_assembly_witness:
  "buildContext context_state S1 =
     [\<lparr>role = System, content = PERSONA_PROMPT\<rparr>,
      \<lparr>role = System, content = SUMMARY_HEADING @ [0x41, 0xA, 0xA, 0x42]\<rparr>,
      \<lparr>role = Assistant, content = [0x62]\<rparr>,
      \<lparr>role = User, content = [0x63]\<rparr>] \<and>
   buildContext context_state [] = [\<lparr>role = System, content = PERSONA_PROMPT\<rparr>]"
proof -
  have one: "buildContext context_state S1 =
     [\<lparr>role = System, content = PERSONA_PROMPT\<rparr>,
      \<lparr>role = System, content = SUMMARY_HEADING @ [0x41, 0xA, 0xA, 0x42]\<rparr>,
      \<lparr>role = Assistant, content = [0x62]\<rparr>,
      \<lparr>role = User, content = [0x63]\<rparr>]"
    using context_assembly [where st = context_state and sid = S1, unfolded Let_def,
        THEN conjunct1]
    by (simp add: context_state_def timed_message_def S1_def HI_def)
  have two: "buildContext context_state [] = [\<lparr>role = System, content = PERSONA_PROMPT\<rparr>]"
    using context_assembly [where st = context_state and sid = "[]", unfolded Let_def,
        THEN conjunct1]
    by (simp add: context_state_def timed_message_def S1_def HI_def)
  from one two show ?thesis by blast
qed

section \<open>The fallback embedding\<close>

lemma length_bump_bucket: "length (bump_bucket c v) = length v"
  by (simp add: bump_bucket_def)

lemma length_fold_bump: "length (fold bump_bucket str v) = length v"
  by (induction str arbitrary: v) (simp_all add: length_bump_bucket)

lemma nth_bump_bucket:
  assumes "length v = 128" and "b < 128"
  shows "bump_bucket c v ! b = v ! b + (if unat c mod 128 = b then 1 else 0)"
  using assms by (simp add: bump_bucket_def nth_list_update)

lemma nth_fold_bump:
  assumes "length v = 128" and "b < 128"
  shows "fold bump_bucket str v ! b =
     v ! b + real (length (filter (\<lambda>c. unat c mod 128 = b) str))"
  using assms
proof (induction str arbitrary: v)
  case Nil
  then show ?case by simp
next
  case (Cons c str)
  have "fold bump_bucket (c # str) v ! b = fold bump_bucket str (bump_bucket c v) ! b"
    by simp
  also have "\<dots> = bump_bucket c v ! b + real (length (filter (\<lambda>c. unat c mod 128 = b) str))"
    using Cons.prems by (intro Cons.IH) (simp_all add: length_bump_bucket)
  also have "\<dots> = v ! b + real (length (filter (\<lambda>c. unat c mod 128 = b) (c # str)))"
    using Cons.prems by (simp add: nth_bump_bucket)
  finally show ?case .
qed

lemma length_histogram: "length (histogram str) = 128"
  by (simp add: histogram_def length_fold_bump)

lemma nth_histogram:
  assumes "b < 128"
  shows "histogram str ! b = real (length (filter (\<lambda>c. unat c mod 128 = b) str))"
  using nth_fold_bump [of "replicate 128 0" b str] assms by (simp add: histogram_def)

lemma nth_spec_histogram:
  assumes "b < 128"
  shows "spec_histogram codes ! b = real (length (filter (\<lambda>c. c mod 128 = b) codes))"
  using assms by (simp add: spec_histogram_def)

lemma histogram_spec: "histogram str = spec_histogram (map unat str)"
proof (rule nth_equalityI)
  show "length (histogram str) = length (spec_histogram (map unat str))"
    by (simp add: length_histogram spec_histogram_def)
  fix b assume "b < length (histogram str)"
  then have b: "b < 128" by (simp add: length_histogram)
  then show "histogram str ! b = spec_histogram (map unat str) ! b"
    by (simp add: nth_histogram nth_spec_histogram filter_map o_def)
qed

lemma foldl_squares:
  fixes a :: real
  shows "foldl (\<lambda>sum val. sum + val * val) a v = a + sum_list (map (\<lambda>x. x * x) v)"
  by (induction v arbitrary: a) simp_all

lemma simpleEmbedding_norm:
  "simpleEmbedding str =
     map (\<lambda>v. v / or_one (euclidean_norm (histogram str))) (histogram str)"
  by (simp add: simpleEmbedding_def Let_def euclidean_norm_def foldl_squares)

lemma or_one_nonzero: "or_one x \<noteq> 0"
  by (simp add: or_one_def)

lemma simpleEmbedding_spec: "simpleEmbedding str = spec_embedding (map unat str)"
  by (simp add: simpleEmbedding_norm spec_embedding_def Let_def histogram_spec or_one_def)

lemma simpleEmbedding_empty: "simpleEmbedding [] = replicate 128 0"
  by (simp add: simpleEmbedding_norm histogram_def euclidean_norm_def or_one_def)

text \<open>
  C4 as the specification words it, with buckets chosen by code point, fails on a string
  with a character beyond the Basic Multilingual Plane: U+1F600 is the surrogate pair
  D83D DE00, and the code increments bucket 61 for the first unit and bucket 0 for the
  second, where the code point 128512 selects bucket 0 once.
\<close>

theorem embedding_by_code_point_counterexample:
  "codePoints [0xD83D, 0xDE00] = [128512] \<and>
   simpleEmbedding [0xD83D, 0xDE00] \<noteq> spec_embedding (codePoints [0xD83D, 0xDE00])"
proof -
  have cp: "codePoints [0xD83D, 0xDE00] = [128512]" by simp
  have "histogram [0xD83D, 0xDE00] ! 61 = 1"
    by (simp add: nth_histogram)
  then have "simpleEmbedding [0xD83D, 0xDE00] ! 61 =
      1 / or_one (euclidean_norm (histogram [0xD83D, 0xDE00]))"
    by (simp add: simpleEmbedding_norm length_histogram)
  then have lhs: "simpleEmbedding [0xD83D, 0xDE00] ! 61 \<noteq> 0"
    by (simp add: or_one_nonzero)
  have "spec_histogram [128512] ! 61 = 0"
    by (simp add: nth_spec_histogram)
  then have rhs: "spec_embedding [128512] ! 61 = 0"
    by (simp add: spec_embedding_def Let_def spec_histogram_def)
  from lhs rhs have "simpleEmbedding [0xD83D, 0xDE00] \<noteq> spec_embedding [128512]"
    by metis
  with cp show ?thesis by simp
qed

text \<open>
  C4, amended. For every string the fallback embedding is the specification's function
  applied to the string's UTF-16 code units: a vector of length 128 in which bucket \<open>b\<close>
  counts the code units congruent to \<open>b\<close> modulo 128, divided componentwise by its
  Euclidean norm, and left as it is when the norm is zero. The divisor is never zero. On
  the empty string the result is the zero vector of length 128. The embedding is a
  function of the string alone.
\<close>

theorem fallback_embedding:
  "simpleEmbedding str = spec_embedding (map unat str) \<and>
   length (simpleEmbedding str) = 128 \<and>
   simpleEmbedding str =
     map (\<lambda>v. v / or_one (euclidean_norm (histogram str))) (histogram str) \<and>
   or_one (euclidean_norm (histogram str)) \<noteq> 0 \<and>
   simpleEmbedding [] = replicate 128 0 \<and>
   getEmbedding None str = simpleEmbedding str"
proof -
  have len: "length (simpleEmbedding str) = 128"
    by (simp add: simpleEmbedding_norm length_histogram)
  have fallback: "getEmbedding None str = simpleEmbedding str"
    by (simp add: getEmbedding_def)
  from simpleEmbedding_spec [of str] len simpleEmbedding_norm [of str]
    or_one_nonzero [of "euclidean_norm (histogram str)"] simpleEmbedding_empty fallback
  show ?thesis by (intro conjI)
qed

section \<open>Rounding of the values that the examples compute\<close>









section \<open>Cosine similarity\<close>
























section \<open>Semantic retrieval\<close>














end
